theory Spec2Isabelle
  imports Main "HOL-Library.Sublist" "HOL-Library.Char_ord" "HOL-Library.List_Lexorder"
    "HOL-Library.AList"
begin

section \<open>Strings and numbers of the host language\<close>

text \<open>
  Strings are lists of characters. \<open>endsWith\<close> and \<open>startsWith\<close> are the methods
  of the same name of the host language's strings.
\<close>

definition endsWith :: "string \<Rightarrow> string \<Rightarrow> bool" where
  "endsWith s suf = (length suf \<le> length s \<and> drop (length s - length suf) s = suf)"

definition startsWith :: "string \<Rightarrow> string \<Rightarrow> bool" where
  "startsWith s pre = (take (length pre) s = pre)"

text \<open>
  A number is an integer or \<open>NaN\<close>: the timestamps and durations of the program are
  whole milliseconds, and \<open>NaN\<close> is what the time of a malformed date string is.
  Every comparison with \<open>NaN\<close> is false.
\<close>

datatype number = NaN | Fin int

fun isNaN :: "number \<Rightarrow> bool" where
  "isNaN NaN = True"
| "isNaN (Fin _) = False"

fun num_lt :: "number \<Rightarrow> number \<Rightarrow> bool" where
  "num_lt (Fin a) (Fin b) = (a < b)"
| "num_lt _ _ = False"

fun num_ge :: "number \<Rightarrow> number \<Rightarrow> bool" where
  "num_ge (Fin a) (Fin b) = (a \<ge> b)"
| "num_ge _ _ = False"

fun num_sub :: "number \<Rightarrow> number \<Rightarrow> number" where
  "num_sub (Fin a) (Fin b) = Fin (a - b)"
| "num_sub _ _ = NaN"

text \<open>Decimal rendering of a number inside a template string.\<close>

definition digit :: "nat \<Rightarrow> char" where
  "digit d = ''0123456789'' ! d"

fun show_nat :: "nat \<Rightarrow> string" where
  "show_nat n = (if n < 10 then [digit n] else show_nat (n div 10) @ [digit (n mod 10)])"

declare show_nat.simps [simp del]

definition show_int :: "int \<Rightarrow> string" where
  "show_int i = (if i < 0 then CHR ''-'' # show_nat (nat (- i)) else show_nat (nat i))"

section \<open>Data model (types.ts)\<close>

record FileReservation =
  pattern :: string
  reason :: "string option"
  since :: string

record AgentSession =
  toolCalls :: nat
  tokens :: nat
  filesModified :: "string list"

record AgentActivity =
  lastActivityAt :: string
  currentActivity :: "string option"
  lastToolCall :: "string option"

record AgentRegistration =
  reg_name :: string
  reg_agentType :: string
  reg_pid :: int
  reg_sessionId :: string
  reg_cwd :: string
  reg_model :: string
  reg_startedAt :: string
  reg_reservations :: "FileReservation list option"
  reg_gitBranch :: "string option"
  reg_isHuman :: bool
  reg_session :: "AgentSession option"
  reg_activity :: "AgentActivity option"
  reg_statusMessage :: "string option"

record MeshMessage =
  msg_id :: string
  msg_from :: string
  msg_to :: string
  msg_text :: string
  msg_timestamp :: string
  msg_urgent :: bool
  msg_replyTo :: "string option"

datatype FeedEventType = Join | Leave | Reserve | Release | Message | Commit | Test | Edit | Stuck

record FeedEvent =
  ev_ts :: string
  ev_agent :: string
  ev_type :: FeedEventType
  ev_target :: "string option"
  ev_preview :: "string option"

datatype AgentStatus = active | idle | away | stuck

record ComputedStatus =
  status :: AgentStatus
  idleFor :: "string option"

text \<open>
  The session state of one agent. A timer handle or the watcher is \<open>True\<close> when it is
  set and \<open>False\<close> when the source holds \<open>null\<close>.
\<close>

record MeshState =
  agentName :: string
  agentType :: string
  registered :: bool
  watcher :: bool
  watcherRetries :: nat
  watcherRetryTimer :: bool
  watcherDebounceTimer :: bool
  reservations :: "FileReservation list"
  chatHistory :: "string \<rightharpoonup> MeshMessage list"
  unreadCounts :: "string \<rightharpoonup> nat"
  broadcastHistory :: "MeshMessage list"
  model :: string
  gitBranch :: "string option"
  isHuman :: bool
  session :: AgentSession
  activity :: AgentActivity
  statusMessage :: "string option"
  customStatus :: bool
  registryFlushTimer :: bool
  sessionStartedAt :: string

section \<open>The world of one agent process\<close>

text \<open>
  A file of the registry or of an inbox is read and parsed in one step by the source.
  Its content is kept in parsed form: \<open>Malformed\<close> is a content on which \<open>JSON.parse\<close>
  throws, \<open>Parsed v\<close> a content that parses to the record \<open>v\<close> of the declared type.
  A directory is the list of its entries, in the order \<open>readdirSync\<close> returns them.
\<close>

datatype 'a jsonfile = Malformed | Parsed 'a

type_synonym 'a directory = "(string \<times> 'a) list"

record AgentsCache =
  agents :: "AgentRegistration list"
  timestamp :: int

datatype path =
    BasePath
  | FeedPath
  | RegistryPath string
  | InboxPath string
  | InboxFilePath string string

datatype timer =
    RegistryFlushTimer
  | WatcherDebounceTimer
  | WatcherRetryTimer
  | PendingEditTimer string
  | RecentCommitTimer
  | RecentTestTimer
  | RecentEditTimer

text \<open>
  The effects of the process on the outside, in program order: every change of the file
  system, every cancelled timer, the closing of the watcher and every call of the
  delivery callback.
\<close>

datatype effect =
    Mkdir path
  | WriteFile path
  | AppendFile path string
  | Unlink path
  | Rmdir path
  | ClearTimeout timer
  | WatcherClose
  | Deliver MeshMessage

text \<open>
  The world is the session state, the directory tree under the mesh root, the
  module-level variables of registry.ts, messaging.ts and tracking.ts, and the effects
  so far. A directory that does not exist is \<open>None\<close>.

  An operation on a file throws exactly when the state of the directory tree says so:
  reading or removing a file that does not exist, writing a file into a directory that
  does not exist, removing a directory that does not exist or is not empty. Faults of
  the device and of permissions are not part of the model. The clock is read once in a
  call.
\<close>

record World =
  state :: MeshState
  base_exists :: bool
  registry_dir :: "AgentRegistration jsonfile directory option"
  inbox_dir :: "MeshMessage jsonfile directory directory option"
  feed_file :: "string option"
  agentsCache :: "AgentsCache option"
  isProcessingMessages :: bool
  pendingProcessArgs :: bool
  pendingEdits :: "string list"
  recentCommit :: bool
  recentCommitTimer :: bool
  recentTestRuns :: nat
  recentTestTimer :: bool
  recentEdits :: nat
  recentEditTimer :: bool
  trace :: "effect list"

text \<open>
  What the process reads from its environment during one call: its own process
  identifier, the liveness of the others, the clock, the naming override and the host's
  context. \<open>process_kill p\<close> is \<open>True\<close> when \<open>process.kill(p, 0)\<close> returns and
  \<open>False\<close> when it throws. \<open>others\<close> is what the other processes do to the registry
  between a write of this process and the read that verifies it.
\<close>

record Env =
  process_pid :: int
  process_kill :: "int \<Rightarrow> bool"
  process_cwd :: string
  PI_AGENT_NAME :: "string option"
  Date_now :: int
  now_iso :: string
  ctx_model :: "string option"
  ctx_sessionId :: string
  others ::
    "AgentRegistration jsonfile directory option \<Rightarrow> AgentRegistration jsonfile directory option"

subsection \<open>File system primitives\<close>

definition log_effect :: "effect \<Rightarrow> World \<Rightarrow> World" where
  "log_effect e w = w\<lparr>trace := trace w @ [e]\<rparr>"

definition regFile :: "string \<Rightarrow> string" where
  "regFile nm = nm @ ''.json''"

definition existsSync_reg :: "World \<Rightarrow> string \<Rightarrow> bool" where
  "existsSync_reg w file =
     (case registry_dir w of None \<Rightarrow> False | Some d \<Rightarrow> map_of d file \<noteq> None)"

text \<open>Reading and parsing a registry file: \<open>None\<close> when either step throws.\<close>

definition readJSON_reg :: "World \<Rightarrow> string \<Rightarrow> AgentRegistration option" where
  "readJSON_reg w file =
     (case registry_dir w of
        None \<Rightarrow> None
      | Some d \<Rightarrow> (case map_of d file of Some (Parsed r) \<Rightarrow> Some r | _ \<Rightarrow> None))"

text \<open>Writing a registry file throws (\<open>None\<close>) when the directory does not exist.\<close>

definition writeFileSync_reg :: "string \<Rightarrow> AgentRegistration \<Rightarrow> World \<Rightarrow> World option" where
  "writeFileSync_reg file r w =
     (case registry_dir w of
        None \<Rightarrow> None
      | Some d \<Rightarrow>
          Some (log_effect (WriteFile (RegistryPath file))
                 (w\<lparr>registry_dir := Some (AList.update file (Parsed r) d)\<rparr>)))"

text \<open>Removing a file throws (\<open>None\<close>) when it does not exist.\<close>

definition unlinkSync_reg :: "string \<Rightarrow> World \<Rightarrow> World option" where
  "unlinkSync_reg file w =
     (case registry_dir w of
        None \<Rightarrow> None
      | Some d \<Rightarrow>
          if map_of d file = None then None
          else Some (log_effect (Unlink (RegistryPath file))
                      (w\<lparr>registry_dir := Some (AList.delete file d)\<rparr>)))"

text \<open>\<open>try { f } catch { }\<close>: a step that throws leaves the world as it was.\<close>

definition ignoring :: "(World \<Rightarrow> World option) \<Rightarrow> World \<Rightarrow> World" where
  "ignoring f w = (case f w of None \<Rightarrow> w | Some w' \<Rightarrow> w')"

definition isProcessAlive :: "Env \<Rightarrow> int \<Rightarrow> bool" where
  "isProcessAlive env p = (if process_kill env p then True else False)"

section \<open>Registry (registry.ts)\<close>

subsection \<open>invalidateAgentsCache, unregister\<close>

definition invalidateAgentsCache :: "World \<Rightarrow> World" where
  "invalidateAgentsCache w = w\<lparr>agentsCache := None\<rparr>"

definition unregister :: "World \<Rightarrow> World" where
  "unregister w =
     (if \<not> registered (state w) then w
      else
        let w1 = ignoring (unlinkSync_reg (regFile (agentName (state w)))) w;
            w2 = w1\<lparr>state := (state w1)\<lparr>registered := False\<rparr>\<rparr>
        in invalidateAgentsCache w2)"

subsection \<open>generateName\<close>






text \<open>The name pattern \<open>^[a-zA-Z0-9_][a-zA-Z0-9_-]*$\<close>, on at most 50 characters.\<close>

definition isWordChar :: "char \<Rightarrow> bool" where
  "isWordChar c =
     ((CHR ''a'' \<le> c \<and> c \<le> CHR ''z'') \<or> (CHR ''A'' \<le> c \<and> c \<le> CHR ''Z'') \<or>
      (CHR ''0'' \<le> c \<and> c \<le> CHR ''9'') \<or> c = CHR ''_'')"

definition isValidAgentName :: "string \<Rightarrow> bool" where
  "isValidAgentName nm =
     (case nm of
        [] \<Rightarrow> False
      | c # cs \<Rightarrow>
          if length nm > 50 then False
          else isWordChar c \<and> list_all (\<lambda>x. isWordChar x \<or> x = CHR ''-'') cs)"

subsection \<open>getActiveAgents\<close>

definition withDefaults :: "AgentRegistration \<Rightarrow> AgentRegistration" where
  "withDefaults reg =
     (let r1 = (if reg_session reg = None
                then reg\<lparr>reg_session := Some \<lparr>toolCalls = 0, tokens = 0, filesModified = []\<rparr>\<rparr>
                else reg)
      in if reg_activity r1 = None
         then r1\<lparr>reg_activity :=
                Some \<lparr>lastActivityAt = reg_startedAt r1, currentActivity = None,
                      lastToolCall = None\<rparr>\<rparr>
         else r1)"

fun scanRegistry ::
  "Env \<Rightarrow> string list \<Rightarrow> AgentRegistration list \<times> World \<Rightarrow> AgentRegistration list \<times> World" where
  "scanRegistry env [] acc = acc"
| "scanRegistry env (file # files) (allAgents, w) =
     scanRegistry env files
       (if \<not> endsWith file ''.json'' then (allAgents, w)
        else (case readJSON_reg w file of
                None \<Rightarrow> (allAgents, w)
              | Some reg \<Rightarrow>
                  if \<not> isProcessAlive env (reg_pid reg)
                  then (allAgents, ignoring (unlinkSync_reg file) w)
                  else (allAgents @ [withDefaults reg], w)))"

definition cacheHit :: "Env \<Rightarrow> int \<Rightarrow> World \<Rightarrow> AgentsCache option" where
  "cacheHit env cacheTtl w =
     (case agentsCache w of
        None \<Rightarrow> None
      | Some c \<Rightarrow> if Date_now env - timestamp c < cacheTtl then Some c else None)"

definition getActiveAgents :: "Env \<Rightarrow> int \<Rightarrow> World \<Rightarrow> AgentRegistration list \<times> World" where
  "getActiveAgents env cacheTtl w =
     (case cacheHit env cacheTtl w of
        Some c \<Rightarrow> (filter (\<lambda>a. reg_name a \<noteq> agentName (state w)) (agents c), w)
      | None \<Rightarrow>
          (case registry_dir w of
             None \<Rightarrow> ([], w\<lparr>agentsCache := Some \<lparr>agents = [], timestamp = Date_now env\<rparr>\<rparr>)
           | Some d \<Rightarrow>
               (case scanRegistry env (map fst d) ([], w) of
                  (allAgents, w1) \<Rightarrow>
                    (filter (\<lambda>a. reg_name a \<noteq> agentName (state w)) allAgents,
                     w1\<lparr>agentsCache :=
                          Some \<lparr>agents = allAgents, timestamp = Date_now env\<rparr>\<rparr>))))"

subsection \<open>updateRegistration\<close>

definition updateRegistration :: "Env \<Rightarrow> World \<Rightarrow> World" where
  "updateRegistration env w =
     (if \<not> registered (state w) then w
      else
        let file = regFile (agentName (state w)) in
        if \<not> existsSync_reg w file then w
        else (case readJSON_reg w file of
                None \<Rightarrow> w
              | Some reg \<Rightarrow>
                  let m = (case ctx_model env of Some i \<Rightarrow> i | None \<Rightarrow> reg_model reg);
                      st = (state w)\<lparr>model := m\<rparr>;
                      reg' = reg\<lparr>reg_model := m,
                                reg_reservations :=
                                  (if length (reservations st) > 0 then Some (reservations st)
                                   else None),
                                reg_session := Some (session st),
                                reg_activity := Some (activity st),
                                reg_statusMessage := statusMessage st\<rparr>
                  in ignoring (writeFileSync_reg file reg') (w\<lparr>state := st\<rparr>)))"

subsection \<open>renameAgent\<close>

definition ensureDirSync_inbox :: "string \<Rightarrow> World \<Rightarrow> World" where
  "ensureDirSync_inbox nm w =
     (case inbox_dir w of
        None \<Rightarrow>
          log_effect (Mkdir (InboxPath nm)) (w\<lparr>base_exists := True, inbox_dir := Some [(nm, [])]\<rparr>)
      | Some boxes \<Rightarrow>
          if map_of boxes nm \<noteq> None then w
          else log_effect (Mkdir (InboxPath nm)) (w\<lparr>inbox_dir := Some (boxes @ [(nm, [])])\<rparr>))"

text \<open>Removing a directory throws when it does not exist or is not empty.\<close>

definition rmdirSync_inbox :: "string \<Rightarrow> World \<Rightarrow> World option" where
  "rmdirSync_inbox nm w =
     (case inbox_dir w of
        None \<Rightarrow> None
      | Some boxes \<Rightarrow>
          (case map_of boxes nm of
             Some [] \<Rightarrow>
               Some (log_effect (Rmdir (InboxPath nm))
                      (w\<lparr>inbox_dir := Some (AList.delete nm boxes)\<rparr>))
           | _ \<Rightarrow> None))"

datatype RenameError =
  not_registered | invalid_name | same_name | name_taken | write_failed | race_lost | verify_failed

definition nameTaken :: "Env \<Rightarrow> World \<Rightarrow> string \<Rightarrow> bool" where
  "nameTaken env w file =
     (if existsSync_reg w file
      then (case readJSON_reg w file of
              None \<Rightarrow> False
            | Some existing \<Rightarrow>
                isProcessAlive env (reg_pid existing) \<and> reg_pid existing \<noteq> process_pid env)
      else False)"

definition renamedRegistration :: "Env \<Rightarrow> MeshState \<Rightarrow> string \<Rightarrow> AgentRegistration" where
  "renamedRegistration env st newName =
     \<lparr>reg_name = newName,
      reg_agentType = agentType st,
      reg_pid = process_pid env,
      reg_sessionId = ctx_sessionId env,
      reg_cwd = process_cwd env,
      reg_model = (case ctx_model env of Some i \<Rightarrow> i | None \<Rightarrow> ''unknown''),
      reg_startedAt = now_iso env,
      reg_reservations =
        (if length (reservations st) > 0 then Some (reservations st) else None),
      reg_gitBranch = gitBranch st,
      reg_isHuman = isHuman st,
      reg_session = Some (session st),
      reg_activity =
        Some \<lparr>lastActivityAt = now_iso env, currentActivity = None, lastToolCall = None\<rparr>,
      reg_statusMessage = statusMessage st\<rparr>"

definition renameAgent ::
  "Env \<Rightarrow> string \<Rightarrow> World \<Rightarrow> (RenameError + string \<times> string) \<times> World" where
  "renameAgent env newName w =
     (if \<not> registered (state w) then (Inl not_registered, w)
      else if \<not> isValidAgentName newName then (Inl invalid_name, w)
      else if newName = agentName (state w) then (Inl same_name, w)
      else if nameTaken env w (regFile newName) then (Inl name_taken, w)
      else
        let oldName = agentName (state w) in
        (case writeFileSync_reg (regFile newName)
                (renamedRegistration env (state w) newName) w of
           None \<Rightarrow> (Inl write_failed, w)
         | Some w1 \<Rightarrow>
             let w2 = w1\<lparr>registry_dir := others env (registry_dir w1)\<rparr> in
             (case readJSON_reg w2 (regFile newName) of
                None \<Rightarrow> (Inl verify_failed, w2)
              | Some written \<Rightarrow>
                  if reg_pid written \<noteq> process_pid env then (Inl race_lost, w2)
                  else
                    let w3 = ignoring (unlinkSync_reg (regFile oldName)) w2;
                        w4 = ensureDirSync_inbox newName w3;
                        w5 = ignoring (rmdirSync_inbox oldName) w4;
                        st = state w5;
                        st' = st\<lparr>agentName := newName,
                                 sessionStartedAt := now_iso env,
                                 activity := (activity st)\<lparr>lastActivityAt := now_iso env\<rparr>\<rparr>
                    in (Inr (oldName, newName),
                        invalidateAgentsCache (w5\<lparr>state := st'\<rparr>)))))"



subsection \<open>pathMatchesReservation\<close>

definition pathMatchesReservation :: "string \<Rightarrow> string \<Rightarrow> bool" where
  "pathMatchesReservation filePath pat =
     (if endsWith pat ''/''
      then startsWith filePath pat \<or> filePath @ ''/'' = pat
      else filePath = pat)"

subsection \<open>formatDuration and computeStatus\<close>

text \<open>
  \<open>formatDuration\<close> takes whole milliseconds. \<open>Math.floor\<close> of a quotient is \<open>div\<close>;
  the remainders are only taken of positive values, where the host's \<open>%\<close> is \<open>mod\<close>.
\<close>

definition formatDuration :: "int \<Rightarrow> string" where
  "formatDuration ms =
     (let seconds = ms div 1000;
          minutes = seconds div 60;
          hours = minutes div 60
      in if hours > 0 then show_int hours @ ''h '' @ show_int (minutes mod 60) @ ''m''
         else if minutes > 0 then show_int minutes @ ''m '' @ show_int (seconds mod 60) @ ''s''
         else show_int seconds @ ''s'')"

text \<open>
  \<open>computeStatus\<close> reads the clock and parses \<open>lastActivityAt\<close>: \<open>now\<close> is
  \<open>Date.now()\<close> and \<open>getTime\<close> is \<open>new Date(s).getTime()\<close>, which is \<open>NaN\<close> for
  a string that is no date. \<open>thresholdMs\<close> is in milliseconds: the callers pass the
  configured number of seconds times 1000.
\<close>

definition ACTIVE_MS :: int where "ACTIVE_MS = 30000"
definition IDLE_MS :: int where "IDLE_MS = 5 * 60000"

definition computeStatus ::
  "int \<Rightarrow> (string \<Rightarrow> number) \<Rightarrow> string \<Rightarrow> bool \<Rightarrow> number \<Rightarrow> ComputedStatus" where
  "computeStatus now getTime lastActivity hasReservation thresholdMs =
     (let elapsed = num_sub (Fin now) (getTime lastActivity)
      in case elapsed of
           NaN \<Rightarrow> \<lparr>status = active, idleFor = None\<rparr>
         | Fin e \<Rightarrow>
             if e < 0 then \<lparr>status = active, idleFor = None\<rparr>
             else if e < ACTIVE_MS then \<lparr>status = active, idleFor = None\<rparr>
             else if e < IDLE_MS then \<lparr>status = idle, idleFor = Some (formatDuration e)\<rparr>
             else if \<not> hasReservation then \<lparr>status = away, idleFor = Some (formatDuration e)\<rparr>
             else if num_ge (Fin e) thresholdMs
               then \<lparr>status = stuck, idleFor = Some (formatDuration e)\<rparr>
             else \<lparr>status = idle, idleFor = Some (formatDuration e)\<rparr>)"

section \<open>Feed (feed.ts)\<close>

subsection \<open>JSON.stringify of a feed event\<close>

text \<open>
  \<open>JSON.stringify\<close> of an event writes its defined fields in the order of the object
  literal of \<open>logEvent\<close>, with no white space, and quotes each string: the double
  quote, the backslash and the control characters are escaped, every other character is
  written as it is.
\<close>

definition hexdigit :: "nat \<Rightarrow> char" where
  "hexdigit d = ''0123456789abcdef'' ! d"

definition quoteChar :: "char \<Rightarrow> string" where
  "quoteChar c =
     (if c = CHR 0x22 then [CHR 0x5C, CHR 0x22]
      else if c = CHR 0x5C then [CHR 0x5C, CHR 0x5C]
      else if c = CHR 0x08 then [CHR 0x5C, CHR ''b'']
      else if c = CHR 0x09 then [CHR 0x5C, CHR ''t'']
      else if c = CHR 0x0A then [CHR 0x5C, CHR ''n'']
      else if c = CHR 0x0C then [CHR 0x5C, CHR ''f'']
      else if c = CHR 0x0D then [CHR 0x5C, CHR ''r'']
      else if (of_char c :: nat) < 32
        then [CHR 0x5C, CHR ''u'', CHR ''0'', CHR ''0'',
              hexdigit (of_char c div 16), hexdigit (of_char c mod 16)]
      else [c])"

definition QuoteJSONString :: "string \<Rightarrow> string" where
  "QuoteJSONString s = CHR 0x22 # concat (map quoteChar s) @ [CHR 0x22]"

fun eventTypeName :: "FeedEventType \<Rightarrow> string" where
  "eventTypeName Join = ''join''"
| "eventTypeName Leave = ''leave''"
| "eventTypeName Reserve = ''reserve''"
| "eventTypeName Release = ''release''"
| "eventTypeName Message = ''message''"
| "eventTypeName Commit = ''commit''"
| "eventTypeName Test = ''test''"
| "eventTypeName Edit = ''edit''"
| "eventTypeName Stuck = ''stuck''"

definition member :: "string \<Rightarrow> string \<Rightarrow> string" where
  "member k v = QuoteJSONString k @ '':'' @ QuoteJSONString v"

definition optMember :: "string \<Rightarrow> string option \<Rightarrow> string" where
  "optMember k v = (case v of None \<Rightarrow> [] | Some x \<Rightarrow> '','' @ member k x)"

definition JSON_stringify_event :: "FeedEvent \<Rightarrow> string" where
  "JSON_stringify_event e =
     ''{'' @ member ''ts'' (ev_ts e) @ '','' @ member ''agent'' (ev_agent e) @ '','' @
     member ''type'' (eventTypeName (ev_type e)) @
     optMember ''target'' (ev_target e) @ optMember ''preview'' (ev_preview e) @ ''}''"

subsection \<open>appendEvent, logEvent\<close>

definition mkdirSync_base :: "World \<Rightarrow> World" where
  "mkdirSync_base w = log_effect (Mkdir BasePath) (w\<lparr>base_exists := True\<rparr>)"

text \<open>Appending creates the file when it is missing, and throws when its directory is.\<close>

definition appendFileSync_feed :: "string \<Rightarrow> World \<Rightarrow> World option" where
  "appendFileSync_feed data w =
     (if \<not> base_exists w then None
      else Some (log_effect (AppendFile FeedPath data)
                  (w\<lparr>feed_file :=
                       Some ((case feed_file w of None \<Rightarrow> [] | Some c \<Rightarrow> c) @ data)\<rparr>)))"

definition appendEvent :: "FeedEvent \<Rightarrow> World \<Rightarrow> World" where
  "appendEvent event w =
     (let w1 = (if \<not> base_exists w then mkdirSync_base w else w)
      in ignoring (appendFileSync_feed (JSON_stringify_event event @ [CHR 0x0A])) w1)"

definition logEvent ::
  "Env \<Rightarrow> string \<Rightarrow> FeedEventType \<Rightarrow> string option \<Rightarrow> string option \<Rightarrow> World \<Rightarrow> World" where
  "logEvent env agent ty target preview w =
     appendEvent
       \<lparr>ev_ts = now_iso env, ev_agent = agent, ev_type = ty, ev_target = target,
        ev_preview = preview\<rparr> w"

subsection \<open>readEvents\<close>

text \<open>
  \<open>trim\<close> removes the white space at both ends; the white space characters below 256
  are the tab, the line feed, the vertical tab, the form feed, the carriage return, the
  space and the no-break space.
\<close>

definition isWhiteSpace :: "char \<Rightarrow> bool" where
  "isWhiteSpace c =
     (c = CHR 0x09 \<or> c = CHR 0x0A \<or> c = CHR 0x0B \<or> c = CHR 0x0C \<or> c = CHR 0x0D \<or>
      c = CHR 0x20 \<or> c = CHR 0xA0)"

definition trim :: "string \<Rightarrow> string" where
  "trim s = rev (dropWhile isWhiteSpace (rev (dropWhile isWhiteSpace s)))"

text \<open>\<open>split_nl s\<close> is \<open>s.split("\n")\<close>: the pieces between the line feeds.\<close>

fun split_nl :: "string \<Rightarrow> string list" where
  "split_nl [] = [[]]"
| "split_nl (c # cs) =
     (if c = CHR 0x0A then [] # split_nl cs
      else (c # hd (split_nl cs)) # tl (split_nl cs))"

text \<open>
  \<open>slice_from_end k xs\<close> is \<open>xs.slice(-k)\<close>: the last \<open>k\<close> elements for a positive
  \<open>k\<close>; \<open>-0\<close> is \<open>0\<close> and a negative \<open>k\<close> gives a positive start index.
\<close>

definition slice_from_end :: "int \<Rightarrow> 'a list \<Rightarrow> 'a list" where
  "slice_from_end k xs =
     (if k > 0 then drop (length xs - nat k) xs else drop (nat (- k)) xs)"

text \<open>
  \<open>JSON_parse\<close> is \<open>JSON.parse\<close> on one line, read as a feed event: \<open>None\<close> when it
  throws.
\<close>

definition readEvents :: "(string \<Rightarrow> FeedEvent option) \<Rightarrow> int \<Rightarrow> World \<Rightarrow> FeedEvent list" where
  "readEvents JSON_parse limit w =
     (case feed_file w of
        None \<Rightarrow> []
      | Some raw \<Rightarrow>
          let content = trim raw in
          if content = [] then []
          else slice_from_end limit (List.map_filter JSON_parse (split_nl content)))"

section \<open>Reservations (reservations.ts)\<close>

definition removeAllReservations :: "Env \<Rightarrow> World \<Rightarrow> string list \<times> World" where
  "removeAllReservations env w =
     (let released = map pattern (reservations (state w));
          w1 = w\<lparr>state := (state w)\<lparr>reservations := []\<rparr>\<rparr>;
          w2 = updateRegistration env w1;
          w3 = fold (\<lambda>p. logEvent env (agentName (state w2)) Release (Some p) None) released w2
      in (released, w3))"

section \<open>Messaging (messaging.ts)\<close>

subsection \<open>Inbox primitives\<close>

definition existsSync_inbox :: "World \<Rightarrow> string \<Rightarrow> bool" where
  "existsSync_inbox w box =
     (case inbox_dir w of None \<Rightarrow> False | Some boxes \<Rightarrow> map_of boxes box \<noteq> None)"

definition readdirSync_inbox :: "World \<Rightarrow> string \<Rightarrow> string list option" where
  "readdirSync_inbox w box =
     (case inbox_dir w of
        None \<Rightarrow> None
      | Some boxes \<Rightarrow> (case map_of boxes box of None \<Rightarrow> None | Some d \<Rightarrow> Some (map fst d)))"

definition readJSON_inbox :: "World \<Rightarrow> string \<Rightarrow> string \<Rightarrow> MeshMessage option" where
  "readJSON_inbox w box file =
     (case inbox_dir w of
        None \<Rightarrow> None
      | Some boxes \<Rightarrow>
          (case map_of boxes box of
             None \<Rightarrow> None
           | Some d \<Rightarrow> (case map_of d file of Some (Parsed m) \<Rightarrow> Some m | _ \<Rightarrow> None)))"

definition unlinkSync_inbox :: "string \<Rightarrow> string \<Rightarrow> World \<Rightarrow> World option" where
  "unlinkSync_inbox box file w =
     (case inbox_dir w of
        None \<Rightarrow> None
      | Some boxes \<Rightarrow>
          (case map_of boxes box of
             None \<Rightarrow> None
           | Some d \<Rightarrow>
               if map_of d file = None then None
               else Some (log_effect (Unlink (InboxFilePath box file))
                           (w\<lparr>inbox_dir :=
                                Some (AList.update box (AList.delete file d) boxes)\<rparr>))))"

subsection \<open>processInbox\<close>

text \<open>
  The delivery callback hands the message to the host; its call is the effect
  \<open>Deliver\<close>. The body of the loop for one file: the \<open>try\<close> block stores, counts,
  delivers and removes; the \<open>catch\<close> block removes the file and ignores a failure.
\<close>

definition storeMessage :: "MeshMessage \<Rightarrow> MeshState \<Rightarrow> MeshState" where
  "storeMessage msg st =
     (let history = (case chatHistory st (msg_from msg) of None \<Rightarrow> [] | Some h \<Rightarrow> h) @ [msg];
          history' = (if length history > 50 then tl history else history);
          current = (case unreadCounts st (msg_from msg) of None \<Rightarrow> 0 | Some n \<Rightarrow> n)
      in st\<lparr>chatHistory := (chatHistory st)(msg_from msg \<mapsto> history'),
            unreadCounts := (unreadCounts st)(msg_from msg \<mapsto> current + 1)\<rparr>)"

definition processFile :: "string \<Rightarrow> string \<Rightarrow> World \<Rightarrow> World" where
  "processFile box file w =
     (case readJSON_inbox w box file of
        None \<Rightarrow> ignoring (unlinkSync_inbox box file) w
      | Some msg \<Rightarrow>
          let w1 = w\<lparr>state := storeMessage msg (state w)\<rparr>;
              w2 = log_effect (Deliver msg) w1
          in (case unlinkSync_inbox box file w2 of
                Some w3 \<Rightarrow> w3
              | None \<Rightarrow> ignoring (unlinkSync_inbox box file) w2))"

fun processFiles :: "string \<Rightarrow> string list \<Rightarrow> World \<Rightarrow> World" where
  "processFiles box [] w = w"
| "processFiles box (file # files) w = processFiles box files (processFile box file w)"

text \<open>
  One scan, between setting and clearing the guard. The callback of the model does not
  call back into \<open>processInbox\<close>, so a pending request can only be one that was left
  before the scan; the \<open>finally\<close> block then runs one more scan.
\<close>

definition scanInbox :: "World \<Rightarrow> World" where
  "scanInbox w =
     (let w1 = w\<lparr>isProcessingMessages := True\<rparr>;
          box = agentName (state w1);
          w2 = (if \<not> existsSync_inbox w1 box then w1
                else (case readdirSync_inbox w1 box of
                        None \<Rightarrow> w1
                      | Some names \<Rightarrow>
                          processFiles box
                            (sort (filter (\<lambda>f. endsWith f ''.json'') names)) w1))
      in w2\<lparr>isProcessingMessages := False\<rparr>)"

definition processInbox :: "World \<Rightarrow> World" where
  "processInbox w =
     (if \<not> registered (state w) then w
      else if isProcessingMessages w then w\<lparr>pendingProcessArgs := True\<rparr>
      else
        let w1 = scanInbox w in
        if pendingProcessArgs w1
        then (let w2 = w1\<lparr>pendingProcessArgs := False\<rparr>
              in if \<not> registered (state w2) then w2 else scanInbox w2)
        else w1)"

subsection \<open>stopWatcher\<close>

definition stopWatcher :: "World \<Rightarrow> World" where
  "stopWatcher w =
     (let w1 = (if watcherDebounceTimer (state w)
                then log_effect (ClearTimeout WatcherDebounceTimer)
                       (w\<lparr>state := (state w)\<lparr>watcherDebounceTimer := False\<rparr>\<rparr>)
                else w);
          w2 = (if watcherRetryTimer (state w1)
                then log_effect (ClearTimeout WatcherRetryTimer)
                       (w1\<lparr>state := (state w1)\<lparr>watcherRetryTimer := False\<rparr>\<rparr>)
                else w1)
      in if watcher (state w2)
         then log_effect WatcherClose (w2\<lparr>state := (state w2)\<lparr>watcher := False\<rparr>\<rparr>)
         else w2)"

section \<open>Activity tracking (tracking.ts)\<close>

subsection \<open>cleanup\<close>

definition cleanup :: "World \<Rightarrow> World" where
  "cleanup w =
     (let w1 = fold (\<lambda>p. log_effect (ClearTimeout (PendingEditTimer p))) (pendingEdits w) w;
          w2 = w1\<lparr>pendingEdits := []\<rparr>;
          w3 = (if recentCommitTimer w2
                then log_effect (ClearTimeout RecentCommitTimer) (w2\<lparr>recentCommitTimer := False\<rparr>)
                else w2);
          w4 = (if recentTestTimer w3
                then log_effect (ClearTimeout RecentTestTimer) (w3\<lparr>recentTestTimer := False\<rparr>)
                else w3)
      in if recentEditTimer w4
         then log_effect (ClearTimeout RecentEditTimer) (w4\<lparr>recentEditTimer := False\<rparr>)
         else w4)"


subsection \<open>addModifiedFile\<close>

text \<open>
  \<open>indexOf\<close> finds the first occurrence and \<open>splice\<close> removes it, which is
  \<open>remove1\<close>; \<open>push\<close> appends; \<open>shift\<close> drops the head.
\<close>

definition addModifiedFile :: "string \<Rightarrow> MeshState \<Rightarrow> MeshState" where
  "addModifiedFile filePath st =
     (let files = filesModified (session st);
          files1 = (if filePath \<in> set files then remove1 filePath files else files);
          files2 = files1 @ [filePath];
          files3 = (if length files2 > 20 then tl files2 else files2)
      in st\<lparr>session := (session st)\<lparr>filesModified := files3\<rparr>\<rparr>)"

text \<open>The session state after the modifications of the paths \<open>ps\<close>, recorded in turn.\<close>

definition recordAll :: "string list \<Rightarrow> MeshState \<Rightarrow> MeshState" where
  "recordAll ps st = foldl (\<lambda>s p. addModifiedFile p s) st ps"

section \<open>Coordinator (index.ts)\<close>

subsection \<open>The state of a new session\<close>

definition initialState :: "string \<Rightarrow> string \<Rightarrow> MeshState" where
  "initialState aType now =
     \<lparr>agentName = [],
      agentType = aType,
      registered = False,
      watcher = False,
      watcherRetries = 0,
      watcherRetryTimer = False,
      watcherDebounceTimer = False,
      reservations = [],
      chatHistory = Map.empty,
      unreadCounts = Map.empty,
      broadcastHistory = [],
      model = [],
      gitBranch = None,
      isHuman = False,
      session = \<lparr>toolCalls = 0, tokens = 0, filesModified = []\<rparr>,
      activity = \<lparr>lastActivityAt = now, currentActivity = None, lastToolCall = None\<rparr>,
      statusMessage = None,
      customStatus = False,
      registryFlushTimer = False,
      sessionStartedAt = now\<rparr>"

subsection \<open>The session_shutdown handler\<close>

definition session_shutdown :: "Env \<Rightarrow> World \<Rightarrow> World" where
  "session_shutdown env w =
     (let w1 = (if registered (state w)
                then (let wa = logEvent env (agentName (state w)) Leave None None w
                      in if length (reservations (state wa)) > 0
                         then snd (removeAllReservations env wa)
                         else wa)
                else w);
          w2 = (if registryFlushTimer (state w1)
                then log_effect (ClearTimeout RegistryFlushTimer)
                       (w1\<lparr>state := (state w1)\<lparr>registryFlushTimer := False\<rparr>\<rparr>)
                else w1);
          w3 = cleanup w2;
          w4 = stopWatcher w3
      in unregister w4)"

section \<open>A parser for the lines of the feed\<close>

text \<open>
  \<open>parseEventLine\<close> reads back the text that \<open>JSON_stringify_event\<close> writes for an
  event, and returns \<open>None\<close> on any other string. It stands for \<open>JSON.parse\<close> in the
  examples, whose lines are such texts or no JSON texts at all.
\<close>

definition expect :: "string \<Rightarrow> string \<Rightarrow> string option" where
  "expect p s = (if startsWith s p then Some (drop (length p) s) else None)"

definition hexval :: "char \<Rightarrow> nat option" where
  "hexval c =
     map_of [(CHR ''0'', 0), (CHR ''1'', 1), (CHR ''2'', 2), (CHR ''3'', 3), (CHR ''4'', 4),
             (CHR ''5'', 5), (CHR ''6'', 6), (CHR ''7'', 7), (CHR ''8'', 8), (CHR ''9'', 9),
             (CHR ''a'', 10), (CHR ''b'', 11), (CHR ''c'', 12), (CHR ''d'', 13),
             (CHR ''e'', 14), (CHR ''f'', 15), (CHR ''A'', 10), (CHR ''B'', 11),
             (CHR ''C'', 12), (CHR ''D'', 13), (CHR ''E'', 14), (CHR ''F'', 15)] c"

definition byteChar :: "nat \<Rightarrow> char" where
  "byteChar n =
     Char (odd n) (odd (n div 2)) (odd (n div 4)) (odd (n div 8))
          (odd (n div 16)) (odd (n div 32)) (odd (n div 64)) (odd (n div 128))"

definition unescape :: "char \<Rightarrow> char option" where
  "unescape c =
     map_of [(CHR 0x22, CHR 0x22), (CHR 0x5C, CHR 0x5C), (CHR ''/'', CHR ''/''),
             (CHR ''b'', CHR 0x08), (CHR ''t'', CHR 0x09), (CHR ''n'', CHR 0x0A),
             (CHR ''f'', CHR 0x0C), (CHR ''r'', CHR 0x0D)] c"

fun unquote :: "string \<Rightarrow> (string \<times> string) option" where
  "unquote [] = None"
| "unquote (c # cs) =
     (if c = CHR 0x22 then Some ([], cs)
      else if c = CHR 0x5C then
        (case cs of
           [] \<Rightarrow> None
         | e # cs' \<Rightarrow>
             if e = CHR ''u'' then
               (case cs' of
                  a # b # h # l # rest \<Rightarrow>
                    if a = CHR ''0'' \<and> b = CHR ''0'' then
                      (case (hexval h, hexval l) of
                         (Some x, Some y) \<Rightarrow>
                           map_option (\<lambda>(s, r). (byteChar (16 * x + y) # s, r)) (unquote rest)
                       | _ \<Rightarrow> None)
                    else None
                | _ \<Rightarrow> None)
             else
               (case unescape e of
                  None \<Rightarrow> None
                | Some x \<Rightarrow> map_option (\<lambda>(s, r). (x # s, r)) (unquote cs')))
      else if (of_char c :: nat) < 32 then None
      else map_option (\<lambda>(s, r). (c # s, r)) (unquote cs))"

definition parseString :: "string \<Rightarrow> (string \<times> string) option" where
  "parseString s = (case s of [] \<Rightarrow> None | c # cs \<Rightarrow> if c = CHR 0x22 then unquote cs else None)"

definition parseMember :: "string \<Rightarrow> string \<Rightarrow> (string \<times> string) option" where
  "parseMember k s =
     (case expect (QuoteJSONString k @ '':'') s of None \<Rightarrow> None | Some r \<Rightarrow> parseString r)"

definition parseOptMember :: "string \<Rightarrow> string \<Rightarrow> string option \<times> string" where
  "parseOptMember k s =
     (case expect '','' s of
        None \<Rightarrow> (None, s)
      | Some r \<Rightarrow> (case parseMember k r of None \<Rightarrow> (None, s) | Some (v, r') \<Rightarrow> (Some v, r')))"

definition typeOfName :: "string \<Rightarrow> FeedEventType option" where
  "typeOfName nm =
     map_of (map (\<lambda>t. (eventTypeName t, t))
       [Join, Leave, Reserve, Release, Message, Commit, Test, Edit, Stuck]) nm"

definition parseEventLine :: "string \<Rightarrow> FeedEvent option" where
  "parseEventLine s =
     (case expect ''{'' s of
        None \<Rightarrow> None
      | Some r0 \<Rightarrow>
     (case parseMember ''ts'' r0 of
        None \<Rightarrow> None
      | Some (ts, r1) \<Rightarrow>
     (case expect '','' r1 of
        None \<Rightarrow> None
      | Some r1' \<Rightarrow>
     (case parseMember ''agent'' r1' of
        None \<Rightarrow> None
      | Some (ag, r2) \<Rightarrow>
     (case expect '','' r2 of
        None \<Rightarrow> None
      | Some r2' \<Rightarrow>
     (case parseMember ''type'' r2' of
        None \<Rightarrow> None
      | Some (tyName, r3) \<Rightarrow>
     (case typeOfName tyName of
        None \<Rightarrow> None
      | Some ty \<Rightarrow>
     (case parseOptMember ''target'' r3 of
        (target, r4) \<Rightarrow>
     (case parseOptMember ''preview'' r4 of
        (preview, r5) \<Rightarrow>
          if r5 = ''}''
          then Some \<lparr>ev_ts = ts, ev_agent = ag, ev_type = ty, ev_target = target,
                     ev_preview = preview\<rparr>
          else None)))))))))"

section \<open>Vocabulary of the statements\<close>

subsection \<open>Directories\<close>

text \<open>
  The content of a file of a directory that may not exist, and of a file of the
  registry: \<open>None\<close> when the file does not exist.
\<close>

definition entryOf :: "'a directory option \<Rightarrow> string \<Rightarrow> 'a option" where
  "entryOf D file = (case D of None \<Rightarrow> None | Some d \<Rightarrow> map_of d file)"

definition fileContent_reg :: "World \<Rightarrow> string \<Rightarrow> AgentRegistration jsonfile option" where
  "fileContent_reg w file = (case registry_dir w of None \<Rightarrow> None | Some d \<Rightarrow> map_of d file)"

text \<open>
  A stale entry of the registry is a \<open>.json\<close> file that parses and whose process is not
  alive; \<open>liveAt\<close> is the registration a \<open>.json\<close> file contributes to the list of agents.
\<close>

definition stale :: "Env \<Rightarrow> string \<times> AgentRegistration jsonfile \<Rightarrow> bool" where
  "stale env e =
     (endsWith (fst e) ''.json'' \<and>
      (case snd e of Malformed \<Rightarrow> False | Parsed r \<Rightarrow> \<not> isProcessAlive env (reg_pid r)))"

definition liveAt ::
  "Env \<Rightarrow> AgentRegistration jsonfile directory \<Rightarrow> string \<Rightarrow> AgentRegistration option" where
  "liveAt env d file =
     (if endsWith file ''.json''
      then (case map_of d file of
              Some (Parsed r) \<Rightarrow> if isProcessAlive env (reg_pid r) then Some (withDefaults r) else None
            | _ \<Rightarrow> None)
      else None)"

subsection \<open>Inbox\<close>

text \<open>
  The last \<open>k\<close> elements of a list, the chat history with and the unread counter of a
  sender, the message files of a directory in the order of a scan, the messages of the
  well-formed ones among given files, the effects a scan of given files has (a delivery
  and a removal for a well-formed file, a removal for another file), and the messages
  delivered in a list of effects.
\<close>

definition lastN :: "nat \<Rightarrow> 'a list \<Rightarrow> 'a list" where
  "lastN k xs = drop (length xs - k) xs"

definition historyOf :: "MeshState \<Rightarrow> string \<Rightarrow> MeshMessage list" where
  "historyOf st sender = (case chatHistory st sender of None \<Rightarrow> [] | Some h \<Rightarrow> h)"

definition unreadOf :: "MeshState \<Rightarrow> string \<Rightarrow> nat" where
  "unreadOf st sender = (case unreadCounts st sender of None \<Rightarrow> 0 | Some n \<Rightarrow> n)"

definition msgsOf :: "MeshMessage jsonfile directory \<Rightarrow> string list \<Rightarrow> MeshMessage list" where
  "msgsOf d files =
     List.map_filter (\<lambda>f. case map_of d f of Some (Parsed m) \<Rightarrow> Some m | _ \<Rightarrow> None) files"

definition effectsOf :: "string \<Rightarrow> MeshMessage jsonfile directory \<Rightarrow> string list \<Rightarrow> effect list" where
  "effectsOf box d files =
     concat (map (\<lambda>f. case map_of d f of
                          None \<Rightarrow> []
                        | Some Malformed \<Rightarrow> [Unlink (InboxFilePath box f)]
                        | Some (Parsed m) \<Rightarrow> [Deliver m, Unlink (InboxFilePath box f)]) files)"

definition messageFiles :: "'a directory \<Rightarrow> string list" where
  "messageFiles d = sort (filter (\<lambda>f. endsWith f ''.json'') (map fst d))"

definition deliveries :: "effect list \<Rightarrow> MeshMessage list" where
  "deliveries es = List.map_filter (\<lambda>e. case e of Deliver m \<Rightarrow> Some m | _ \<Rightarrow> None) es"

subsection \<open>Shutdown\<close>

text \<open>
  An effect that happens under a condition, the line that \<open>logEvent\<close> writes for an
  event with no preview, and the position of the first occurrence of an element in a
  list.
\<close>

definition optEffect :: "bool \<Rightarrow> effect \<Rightarrow> effect list" where
  "optEffect b e = (if b then [e] else [])"

definition eventLine :: "Env \<Rightarrow> string \<Rightarrow> FeedEventType \<Rightarrow> string option \<Rightarrow> string" where
  "eventLine env agent ty target =
     JSON_stringify_event
       \<lparr>ev_ts = now_iso env, ev_agent = agent, ev_type = ty, ev_target = target,
        ev_preview = None\<rparr> @ [CHR 0x0A]"

fun firstIndex :: "'a \<Rightarrow> 'a list \<Rightarrow> nat" where
  "firstIndex x [] = 0"
| "firstIndex x (y # ys) = (if x = y then 0 else Suc (firstIndex x ys))"

section \<open>An example environment and example worlds\<close>

text \<open>
  The process 4242 in a system where exactly the process identifiers from 1000 to 4999
  are alive, and where no other process writes to the registry.
\<close>

definition exampleEnv :: Env where
  "exampleEnv =
     \<lparr>process_pid = 4242,
      process_kill = (\<lambda>p. 1000 \<le> p \<and> p < 5000),
      process_cwd = ''/home/user/project'',
      PI_AGENT_NAME = None,
      Date_now = 5000,
      now_iso = ''2026-01-01T00:00:05.000Z'',
      ctx_model = Some ''model-1'',
      ctx_sessionId = ''session-1'',
      others = (\<lambda>d. d)\<rparr>"

text \<open>A registration, the world of a session with an empty mesh root and no timer set,
  and the registered agent \<open>agent-1\<close> of the example process.\<close>

definition exampleReg :: "string \<Rightarrow> int \<Rightarrow> AgentRegistration" where
  "exampleReg nm p =
     \<lparr>reg_name = nm,
      reg_agentType = ''agent'',
      reg_pid = p,
      reg_sessionId = ''session-0'',
      reg_cwd = ''/home/user/project'',
      reg_model = ''model-1'',
      reg_startedAt = ''2026-01-01T00:00:00.000Z'',
      reg_reservations = None,
      reg_gitBranch = None,
      reg_isHuman = False,
      reg_session = Some \<lparr>toolCalls = 0, tokens = 0, filesModified = []\<rparr>,
      reg_activity =
        Some \<lparr>lastActivityAt = ''2026-01-01T00:00:00.000Z'', currentActivity = None,
              lastToolCall = None\<rparr>,
      reg_statusMessage = None\<rparr>"

definition emptyWorld :: "MeshState \<Rightarrow> World" where
  "emptyWorld st =
     \<lparr>state = st,
      base_exists = True,
      registry_dir = Some [],
      inbox_dir = Some [],
      feed_file = None,
      agentsCache = None,
      isProcessingMessages = False,
      pendingProcessArgs = False,
      pendingEdits = [],
      recentCommit = False,
      recentCommitTimer = False,
      recentTestRuns = 0,
      recentTestTimer = False,
      recentEdits = 0,
      recentEditTimer = False,
      trace = []\<rparr>"

definition agent1 :: MeshState where
  "agent1 = (initialState ''agent'' ''2026-01-01T00:00:00.000Z'')
     \<lparr>agentName := ''agent-1'', registered := True, model := ''model-1''\<rparr>"





text \<open>
  A registry with the agent's own record, the record of a dead process, a file that
  does not parse, the record of a live peer and a file that is no record; the example
  world with this registry, and the same with a cache filled half a second ago, when
  the process 77 was alive.
\<close>

definition exampleRegistry :: "AgentRegistration jsonfile directory" where
  "exampleRegistry =
     [(''agent-1.json'', Parsed (exampleReg ''agent-1'' 4242)),
      (''agent-2.json'', Parsed (exampleReg ''agent-2'' 77)),
      (''agent-3.json'', Malformed),
      (''agent-4.json'', Parsed (exampleReg ''agent-4'' 1001)),
      (''notes.txt'', Malformed)]"

definition exampleWorld :: World where
  "exampleWorld = (emptyWorld agent1)\<lparr>registry_dir := Some exampleRegistry\<rparr>"

definition cachedWorld :: World where
  "cachedWorld = exampleWorld
     \<lparr>agentsCache := Some \<lparr>agents = [exampleReg ''agent-2'' 77], timestamp = 4500\<rparr>\<rparr>"

text \<open>
  An inbox of \<open>agent-1\<close> with two messages of \<open>agent-4\<close>, listed out of order, a message
  file that does not parse, and a file that is no message file.
\<close>

definition exampleMsg :: "string \<Rightarrow> string \<Rightarrow> string \<Rightarrow> MeshMessage" where
  "exampleMsg i sender txt =
     \<lparr>msg_id = i, msg_from = sender, msg_to = ''agent-1'', msg_text = txt,
      msg_timestamp = ''2026-01-01T00:00:01.000Z'', msg_urgent = False, msg_replyTo = None\<rparr>"

definition exampleInbox :: "MeshMessage jsonfile directory" where
  "exampleInbox =
     [(''170-b.json'', Parsed (exampleMsg ''id-2'' ''agent-4'' ''second'')),
      (''169-a.json'', Parsed (exampleMsg ''id-1'' ''agent-4'' ''first'')),
      (''170-a.json'', Malformed),
      (''readme.txt'', Malformed)]"

definition inboxWorld :: World where
  "inboxWorld = exampleWorld\<lparr>inbox_dir := Some [(''agent-1'', exampleInbox)]\<rparr>"

text \<open>Three events, and a feed that holds the first; in the torn feed the write of
  the second stopped after 12 characters.\<close>

definition joinEvent :: FeedEvent where
  "joinEvent = \<lparr>ev_ts = ''2026-01-01T00:00:05.000Z'', ev_agent = ''agent-1'', ev_type = Join,
                ev_target = None, ev_preview = None\<rparr>"

definition reserveEvent :: FeedEvent where
  "reserveEvent = \<lparr>ev_ts = ''2026-01-01T00:00:06.000Z'', ev_agent = ''agent-1'', ev_type = Reserve,
                ev_target = Some ''src/auth/'', ev_preview = Some [CHR ''a'', CHR 0x22, CHR 0x0A, CHR 0x01, CHR ''b'']\<rparr>"

definition releaseEvent :: FeedEvent where
  "releaseEvent = \<lparr>ev_ts = ''2026-01-01T00:00:07.000Z'', ev_agent = ''agent-1'',
     ev_type = Release, ev_target = Some ''src/auth/'', ev_preview = None\<rparr>"

definition feedWorld :: World where
  "feedWorld = (emptyWorld agent1)
     \<lparr>feed_file := Some (JSON_stringify_event joinEvent @ [CHR 0x0A])\<rparr>"

definition tornWorld :: World where
  "tornWorld = (emptyWorld agent1)
     \<lparr>feed_file := Some (JSON_stringify_event joinEvent @ [CHR 0x0A] @
                            take 12 (JSON_stringify_event reserveEvent))\<rparr>"

text \<open>
  The example world at a shutdown: \<open>agent-1\<close> holds one reservation, its watcher is
  open, and the flush timer, the debounce timer of one edit and the timer of the recent
  edits are set.
\<close>

definition shutdownWorld :: World where
  "shutdownWorld = exampleWorld
     \<lparr>state := agent1
        \<lparr>reservations :=
           [\<lparr>pattern = ''src/auth/'', reason = Some ''refactoring'',
             since = ''2026-01-01T00:00:02.000Z''\<rparr>],
         watcher := True,
         registryFlushTimer := True\<rparr>,
      pendingEdits := [''src/auth/login.ts''],
      recentEdits := 1,
      recentEditTimer := True\<rparr>"

section \<open>Properties of the pure helpers\<close>

subsection \<open>String predicates\<close>

lemma endsWith_slash: "endsWith pat ''/'' = (pat \<noteq> [] \<and> last pat = CHR ''/'')"
proof (cases pat rule: rev_cases)
  case Nil
  then show ?thesis by (simp add: endsWith_def)
next
  case (snoc ys y)
  then show ?thesis by (auto simp: endsWith_def)
qed

lemma startsWith_prefix: "startsWith s pre = prefix pre s"
  by (auto simp: startsWith_def prefix_def take_all_iff dest: sym)
     (metis append_eq_conv_conj)

subsection \<open>Reservation matching\<close>

text \<open>
  Claim C4. A pattern with no trailing slash matches exactly the equal path. A pattern
  \<open>d/\<close> matches the directory \<open>d\<close> itself and every path that continues \<open>d/\<close>, and
  nothing else. So \<open>src/auth/\<close> matches \<open>src/auth/x.ts\<close> and \<open>src/auth\<close> but not
  \<open>src/authorization/x.ts\<close>, and \<open>pkg.json\<close> matches the path \<open>pkg.json\<close> only, not
  \<open>pkg-lock.json\<close>.
\<close>

theorem pathMatchesReservation_spec:
  "((pat = [] \<or> last pat \<noteq> CHR ''/'') \<longrightarrow> pathMatchesReservation f pat = (f = pat)) \<and>
   (pathMatchesReservation f (d @ ''/'') = (f = d \<or> (\<exists>rest. f = d @ ''/'' @ rest))) \<and>
   pathMatchesReservation ''src/auth/x.ts'' ''src/auth/'' \<and>
   pathMatchesReservation ''src/auth'' ''src/auth/'' \<and>
   \<not> pathMatchesReservation ''src/authorization/x.ts'' ''src/auth/'' \<and>
   pathMatchesReservation f ''pkg.json'' = (f = ''pkg.json'') \<and>
   \<not> pathMatchesReservation ''pkg-lock.json'' ''pkg.json''"
proof -
  have a: "(pat = [] \<or> last pat \<noteq> CHR ''/'') \<longrightarrow> pathMatchesReservation f pat = (f = pat)"
    by (auto simp: pathMatchesReservation_def endsWith_slash)
  have b: "pathMatchesReservation f (d @ ''/'') = (f = d \<or> (\<exists>rest. f = d @ ''/'' @ rest))"
    by (auto simp: pathMatchesReservation_def endsWith_slash startsWith_prefix prefix_def)
  have c: "pathMatchesReservation ''src/auth/x.ts'' ''src/auth/''"
    "pathMatchesReservation ''src/auth'' ''src/auth/''"
    "\<not> pathMatchesReservation ''src/authorization/x.ts'' ''src/auth/''"
    "\<not> pathMatchesReservation ''pkg-lock.json'' ''pkg.json''"
    by (simp_all add: pathMatchesReservation_def endsWith_def startsWith_def)
  have d: "pathMatchesReservation f ''pkg.json'' = (f = ''pkg.json'')"
    by (simp add: pathMatchesReservation_def endsWith_def)
  from a b c d show ?thesis by blast
qed

theorem pathMatchesReservation_spec_witness:
  "last ''src/auth/login.ts'' \<noteq> CHR ''/'' \<and>
   pathMatchesReservation ''src/auth/login.ts'' ''src/auth/login.ts'' \<and>
   \<not> pathMatchesReservation ''src/auth/signup.ts'' ''src/auth/login.ts'' \<and>
   pathMatchesReservation ''src/auth/utils/hash.ts'' (''src/auth'' @ ''/'') \<and>
   \<not> pathMatchesReservation ''src/auth.ts'' (''src/auth'' @ ''/'')"
proof -
  have 1: "last ''src/auth/login.ts'' \<noteq> CHR ''/''" by simp
  have 2: "pathMatchesReservation ''src/auth/login.ts'' ''src/auth/login.ts''"
    using 1 pathMatchesReservation_spec
      [where pat = "''src/auth/login.ts''" and f = "''src/auth/login.ts''"]
    by simp
  have 3: "\<not> pathMatchesReservation ''src/auth/signup.ts'' ''src/auth/login.ts''"
    using 1 pathMatchesReservation_spec
      [where pat = "''src/auth/login.ts''" and f = "''src/auth/signup.ts''"]
    by simp
  have 4: "pathMatchesReservation ''src/auth/utils/hash.ts'' (''src/auth'' @ ''/'')"
    using pathMatchesReservation_spec
      [where d = "''src/auth''" and f = "''src/auth/utils/hash.ts''"]
    by simp
  have 5: "\<not> pathMatchesReservation ''src/auth.ts'' (''src/auth'' @ ''/'')"
    using pathMatchesReservation_spec [where d = "''src/auth''" and f = "''src/auth.ts''"]
    by simp
  from 1 2 3 4 5 show ?thesis by blast
qed

subsection \<open>Status inference\<close>

text \<open>
  Claim C2. With \<open>elapsed\<close> the time since \<open>lastActivityAt\<close>: an elapsed time that is
  \<open>NaN\<close> (the timestamp is no date) or negative gives active, with no error; below 30
  seconds active; from 30 seconds and below 5 minutes idle; from 5 minutes on, away with
  no reservation, stuck with a reservation and an elapsed time of at least the
  threshold, and idle otherwise.
\<close>

theorem computeStatus_thresholds:
  "(getTime s = NaN \<longrightarrow>
      computeStatus now getTime s hasRes thr = \<lparr>status = active, idleFor = None\<rparr>) \<and>
   (getTime s = Fin t \<and> now - t < 0 \<longrightarrow>
      computeStatus now getTime s hasRes thr = \<lparr>status = active, idleFor = None\<rparr>) \<and>
   (getTime s = Fin t \<and> 0 \<le> now - t \<and> now - t < 30000 \<longrightarrow>
      status (computeStatus now getTime s hasRes thr) = active) \<and>
   (getTime s = Fin t \<and> 30000 \<le> now - t \<and> now - t < 300000 \<longrightarrow>
      status (computeStatus now getTime s hasRes thr) = idle) \<and>
   (getTime s = Fin t \<and> 300000 \<le> now - t \<and> \<not> hasRes \<longrightarrow>
      status (computeStatus now getTime s hasRes thr) = away) \<and>
   (getTime s = Fin t \<and> 300000 \<le> now - t \<and> hasRes \<and> num_ge (Fin (now - t)) thr \<longrightarrow>
      status (computeStatus now getTime s hasRes thr) = stuck) \<and>
   (getTime s = Fin t \<and> 300000 \<le> now - t \<and> hasRes \<and> \<not> num_ge (Fin (now - t)) thr \<longrightarrow>
      status (computeStatus now getTime s hasRes thr) = idle)"
  by (simp add: computeStatus_def ACTIVE_MS_def IDLE_MS_def)

theorem computeStatus_thresholds_witness:
  "computeStatus 1000 (\<lambda>_. NaN) ''never'' True (Fin 900000) =
     \<lparr>status = active, idleFor = None\<rparr> \<and>
   computeStatus 1000 (\<lambda>_. Fin 5000) ''t'' True (Fin 900000) =
     \<lparr>status = active, idleFor = None\<rparr> \<and>
   status (computeStatus 11000 (\<lambda>_. Fin 1000) ''t'' True (Fin 900000)) = active \<and>
   status (computeStatus 61000 (\<lambda>_. Fin 1000) ''t'' True (Fin 900000)) = idle \<and>
   status (computeStatus 301000 (\<lambda>_. Fin 1000) ''t'' False (Fin 900000)) = away \<and>
   status (computeStatus 901000 (\<lambda>_. Fin 1000) ''t'' True (Fin 900000)) = stuck \<and>
   status (computeStatus 301000 (\<lambda>_. Fin 1000) ''t'' True (Fin 900000)) = idle \<and>
   status (computeStatus 301000 (\<lambda>_. Fin 1000) ''t'' True NaN) = idle"
proof -
  have 1: "computeStatus 1000 (\<lambda>_. NaN) ''never'' True (Fin 900000) =
      \<lparr>status = active, idleFor = None\<rparr>"
    using computeStatus_thresholds [where getTime = "\<lambda>_. NaN" and s = "''never''"
        and now = 1000 and hasRes = True and thr = "Fin 900000" and t = 0]
    by simp
  have 2: "computeStatus 1000 (\<lambda>_. Fin 5000) ''t'' True (Fin 900000) =
      \<lparr>status = active, idleFor = None\<rparr>"
    using computeStatus_thresholds [where getTime = "\<lambda>_. Fin 5000" and s = "''t''"
        and now = 1000 and hasRes = True and thr = "Fin 900000" and t = 5000]
    by simp
  have 3: "status (computeStatus 11000 (\<lambda>_. Fin 1000) ''t'' True (Fin 900000)) = active"
    using computeStatus_thresholds [where getTime = "\<lambda>_. Fin 1000" and s = "''t''"
        and now = 11000 and hasRes = True and thr = "Fin 900000" and t = 1000]
    by simp
  have 4: "status (computeStatus 61000 (\<lambda>_. Fin 1000) ''t'' True (Fin 900000)) = idle"
    using computeStatus_thresholds [where getTime = "\<lambda>_. Fin 1000" and s = "''t''"
        and now = 61000 and hasRes = True and thr = "Fin 900000" and t = 1000]
    by simp
  have 5: "status (computeStatus 301000 (\<lambda>_. Fin 1000) ''t'' False (Fin 900000)) = away"
    using computeStatus_thresholds [where getTime = "\<lambda>_. Fin 1000" and s = "''t''"
        and now = 301000 and hasRes = False and thr = "Fin 900000" and t = 1000]
    by simp
  have 6: "status (computeStatus 901000 (\<lambda>_. Fin 1000) ''t'' True (Fin 900000)) = stuck"
    using computeStatus_thresholds [where getTime = "\<lambda>_. Fin 1000" and s = "''t''"
        and now = 901000 and hasRes = True and thr = "Fin 900000" and t = 1000]
    by simp
  have 7: "status (computeStatus 301000 (\<lambda>_. Fin 1000) ''t'' True (Fin 900000)) = idle"
    using computeStatus_thresholds [where getTime = "\<lambda>_. Fin 1000" and s = "''t''"
        and now = 301000 and hasRes = True and thr = "Fin 900000" and t = 1000]
    by simp
  have 8: "status (computeStatus 301000 (\<lambda>_. Fin 1000) ''t'' True NaN) = idle"
    using computeStatus_thresholds [where getTime = "\<lambda>_. Fin 1000" and s = "''t''"
        and now = 301000 and hasRes = True and thr = NaN and t = 1000]
    by simp
  from 1 2 3 4 5 6 7 8 show ?thesis by blast
qed

text \<open>
  Claim C3, as stated, fails in its second example: 200 seconds is below the 5 minutes
  from which an agent with no reservation is away, so the status is idle.
\<close>

theorem computeStatus_200s_counterexample:
  "status (computeStatus 200000 (\<lambda>_. Fin 0) ''t0'' False (Fin 900000)) \<noteq> away"
  by (simp add: computeStatus_def ACTIVE_MS_def IDLE_MS_def)

text \<open>
  Claim C3, amended. An elapsed time of 10 seconds gives active; 200 seconds with no
  reservation gives idle, with the duration \<open>3m 20s\<close>; 20 minutes with a reservation and
  a threshold of 900 seconds (900000 milliseconds) gives stuck, with the duration
  \<open>20m 0s\<close>.
\<close>

theorem computeStatus_examples:
  "(getTime s = Fin (now - 10000) \<longrightarrow>
      computeStatus now getTime s hasRes thr = \<lparr>status = active, idleFor = None\<rparr>) \<and>
   (getTime s = Fin (now - 200000) \<longrightarrow>
      computeStatus now getTime s False thr =
        \<lparr>status = idle, idleFor = Some ''3m 20s''\<rparr>) \<and>
   (getTime s = Fin (now - 1200000) \<longrightarrow>
      computeStatus now getTime s True (Fin 900000) =
        \<lparr>status = stuck, idleFor = Some ''20m 0s''\<rparr>)"
  by (simp add: computeStatus_def ACTIVE_MS_def IDLE_MS_def formatDuration_def show_int_def
      show_nat.simps digit_def)

theorem computeStatus_examples_witness:
  "computeStatus 5000000 (\<lambda>_. Fin 4990000) ''a'' True (Fin 900000) =
     \<lparr>status = active, idleFor = None\<rparr> \<and>
   computeStatus 5000000 (\<lambda>_. Fin 4800000) ''a'' False (Fin 900000) =
     \<lparr>status = idle, idleFor = Some ''3m 20s''\<rparr> \<and>
   computeStatus 5000000 (\<lambda>_. Fin 3800000) ''a'' True (Fin 900000) =
     \<lparr>status = stuck, idleFor = Some ''20m 0s''\<rparr>"
proof -
  have 1: "computeStatus 5000000 (\<lambda>_. Fin 4990000) ''a'' True (Fin 900000) =
      \<lparr>status = active, idleFor = None\<rparr>"
    using computeStatus_examples [where getTime = "\<lambda>_. Fin 4990000" and s = "''a''"
        and now = 5000000 and hasRes = True and thr = "Fin 900000"]
    by simp
  have 2: "computeStatus 5000000 (\<lambda>_. Fin 4800000) ''a'' False (Fin 900000) =
      \<lparr>status = idle, idleFor = Some ''3m 20s''\<rparr>"
    using computeStatus_examples [where getTime = "\<lambda>_. Fin 4800000" and s = "''a''"
        and now = 5000000 and hasRes = True and thr = "Fin 900000"]
    by simp
  have 3: "computeStatus 5000000 (\<lambda>_. Fin 3800000) ''a'' True (Fin 900000) =
      \<lparr>status = stuck, idleFor = Some ''20m 0s''\<rparr>"
    using computeStatus_examples [where getTime = "\<lambda>_. Fin 3800000" and s = "''a''"
        and now = 5000000 and hasRes = True and thr = "Fin 900000"]
    by simp
  from 1 2 3 show ?thesis by blast
qed

subsection \<open>The list of modified files\<close>

lemma addModifiedFile_inv:
  assumes "distinct (filesModified (session st))" "length (filesModified (session st)) \<le> 20"
  shows "distinct (filesModified (session (addModifiedFile p st))) \<and>
         length (filesModified (session (addModifiedFile p st))) \<le> 20 \<and>
         last (filesModified (session (addModifiedFile p st))) = p"
proof -
  let ?files = "filesModified (session st)"
  let ?f1 = "if p \<in> set ?files then remove1 p ?files else ?files"
  have d: "distinct (?f1 @ [p])" using assms by auto
  have l: "length (?f1 @ [p]) \<le> 21" using assms by (auto simp: length_remove1)
  show ?thesis
  proof (cases "length (?f1 @ [p]) > 20")
    case True
    then have ne: "?f1 \<noteq> []" by auto
    have "filesModified (session (addModifiedFile p st)) = tl (?f1 @ [p])"
      using True by (simp add: addModifiedFile_def Let_def)
    moreover have "distinct (tl (?f1 @ [p]))" using d distinct_tl by blast
    moreover have "length (tl (?f1 @ [p])) \<le> 20" using l by simp
    moreover have "last (tl (?f1 @ [p])) = p" using ne by (cases ?f1) auto
    ultimately show ?thesis by simp
  next
    case False
    then have "filesModified (session (addModifiedFile p st)) = ?f1 @ [p]"
      by (simp add: addModifiedFile_def Let_def)
    with d False show ?thesis by simp
  qed
qed

lemma addModifiedFile_present:
  assumes "distinct (filesModified (session st))" "length (filesModified (session st)) \<le> 20"
    and "p \<in> set (filesModified (session st))"
  shows "filesModified (session (addModifiedFile p st)) =
         remove1 p (filesModified (session st)) @ [p]"
  using assms by (auto simp: addModifiedFile_def Let_def length_remove1)

lemma recordAll_inv:
  assumes "distinct (filesModified (session st))" "length (filesModified (session st)) \<le> 20"
  shows "distinct (filesModified (session (recordAll ps st))) \<and>
         length (filesModified (session (recordAll ps st))) \<le> 20 \<and>
         (ps \<noteq> [] \<longrightarrow> last (filesModified (session (recordAll ps st))) = last ps)"
  using assms
proof (induction ps arbitrary: st rule: rev_induct)
  case Nil
  then show ?case by (simp add: recordAll_def)
next
  case (snoc x xs)
  from snoc.IH [OF snoc.prems]
  have "distinct (filesModified (session (recordAll xs st)))"
    and "length (filesModified (session (recordAll xs st))) \<le> 20"
    by simp_all
  from addModifiedFile_inv [OF this, of x]
  show ?case by (simp add: recordAll_def)
qed

text \<open>
  Claim C9. From the empty list of a new session, after any sequence of recorded
  modifications the list of modified files has at most 20 entries and no duplicate, and
  its last entry is the path recorded last; recording a path that is in the list moves
  it to the end and adds no entry.
\<close>

theorem modifiedFiles_bounded_distinct_recent:
  assumes "filesModified (session st) = []"
  shows "length (filesModified (session (recordAll ps st))) \<le> 20 \<and>
         distinct (filesModified (session (recordAll ps st))) \<and>
         (ps \<noteq> [] \<longrightarrow> last (filesModified (session (recordAll ps st))) = last ps) \<and>
         (p \<in> set (filesModified (session (recordAll ps st))) \<longrightarrow>
            filesModified (session (addModifiedFile p (recordAll ps st))) =
              remove1 p (filesModified (session (recordAll ps st))) @ [p])"
proof -
  have inv: "distinct (filesModified (session (recordAll ps st))) \<and>
      length (filesModified (session (recordAll ps st))) \<le> 20 \<and>
      (ps \<noteq> [] \<longrightarrow> last (filesModified (session (recordAll ps st))) = last ps)"
    using assms by (intro recordAll_inv) simp_all
  then show ?thesis using addModifiedFile_present by blast
qed

theorem modifiedFiles_bounded_distinct_recent_witness:
  "filesModified (session (initialState ''agent'' ''t0'')) = [] \<and>
   filesModified (session (recordAll [''a.ts'', ''b.ts'', ''a.ts''] (initialState ''agent'' ''t0''))) =
     [''b.ts'', ''a.ts''] \<and>
   length (filesModified
     (session (recordAll [''a.ts'', ''b.ts'', ''a.ts''] (initialState ''agent'' ''t0'')))) \<le> 20 \<and>
   filesModified (session (addModifiedFile ''b.ts''
     (recordAll [''a.ts'', ''b.ts'', ''a.ts''] (initialState ''agent'' ''t0'')))) =
     [''a.ts'', ''b.ts'']"
proof -
  let ?st = "initialState ''agent'' ''t0''"
  let ?ps = "[''a.ts'', ''b.ts'', ''a.ts'']"
  have h: "filesModified (session ?st) = []"
    by (simp add: initialState_def)
  have v: "filesModified (session (recordAll ?ps ?st)) = [''b.ts'', ''a.ts'']"
    by (simp add: recordAll_def addModifiedFile_def initialState_def)
  from modifiedFiles_bounded_distinct_recent [OF h, of ?ps "''b.ts''"] v h
  show ?thesis by simp
qed

section \<open>Properties of the registry\<close>

subsection \<open>Name generation\<close>
















subsection \<open>Active agents\<close>

lemma withDefaults_pid [simp]: "reg_pid (withDefaults r) = reg_pid r"
  by (simp add: withDefaults_def Let_def)

lemma withDefaults_name [simp]: "reg_name (withDefaults r) = reg_name r"
  by (simp add: withDefaults_def Let_def)

lemma map_filter_cong:
  assumes "\<And>x. x \<in> set xs \<Longrightarrow> f x = g x"
  shows "List.map_filter f xs = List.map_filter g xs"
  using assms
proof (induction xs)
  case Nil
  then show ?case by simp
next
  case (Cons a xs)
  then have "List.map_filter f xs = List.map_filter g xs" by simp
  moreover have "f a = g a" using Cons.prems by simp
  ultimately show ?case by (simp split: option.split)
qed

lemma map_filter_Cons:
  "List.map_filter f (x # xs) = (case f x of None \<Rightarrow> [] | Some y \<Rightarrow> [y]) @ List.map_filter f xs"
  by (simp split: option.split)

lemma distinct_keys_entry:
  "distinct (map fst d) \<Longrightarrow> (k, v) \<in> set d \<Longrightarrow> map_of d k = Some v"
  by simp

lemma scanRegistry_spec:
  assumes "registry_dir w = Some d" "distinct (map fst d)" "distinct fs"
  shows "fst (scanRegistry env fs (acc, w)) = acc @ List.map_filter (liveAt env d) fs \<and>
         registry_dir (snd (scanRegistry env fs (acc, w))) =
           Some (filter (\<lambda>e. \<not> (fst e \<in> set fs \<and> stale env e)) d) \<and>
         state (snd (scanRegistry env fs (acc, w))) = state w"
  using assms
proof (induction fs arbitrary: acc w d)
  case Nil
  then show ?case by simp
next
  case (Cons f files)
  have dfiles: "distinct files" and fnot: "f \<notin> set files" using Cons.prems(3) by auto
  show ?case
  proof (cases "endsWith f ''.json''")
    case False
    have live: "liveAt env d f = None" using False by (simp add: liveAt_def)
    have flt: "filter (\<lambda>e. \<not> (fst e \<in> set (f # files) \<and> stale env e)) d =
               filter (\<lambda>e. \<not> (fst e \<in> set files \<and> stale env e)) d"
      using False by (intro filter_cong) (auto simp: stale_def)
    from Cons.IH [OF Cons.prems(1,2) dfiles, of acc] False live flt
    show ?thesis by (simp add: map_filter_Cons)
  next
    case json: True
    show ?thesis
    proof (cases "readJSON_reg w f")
      case None
      then have nop: "\<forall>r. map_of d f \<noteq> Some (Parsed r)"
        using Cons.prems(1) by (auto simp: readJSON_reg_def split: option.splits jsonfile.splits)
      have live: "liveAt env d f = None"
        using nop by (auto simp: liveAt_def split: option.splits jsonfile.splits)
      have flt: "filter (\<lambda>e. \<not> (fst e \<in> set (f # files) \<and> stale env e)) d =
                 filter (\<lambda>e. \<not> (fst e \<in> set files \<and> stale env e)) d"
      proof (intro filter_cong refl)
        fix e assume e: "e \<in> set d"
        show "(\<not> (fst e \<in> set (f # files) \<and> stale env e)) =
              (\<not> (fst e \<in> set files \<and> stale env e))"
        proof (cases "fst e = f")
          case True
          then have "map_of d f = Some (snd e)"
            using e Cons.prems(2) by (cases e) simp
          with nop have "\<not> stale env e"
            by (cases "snd e") (auto simp: stale_def)
          then show ?thesis by simp
        next
          case False
          then show ?thesis by simp
        qed
      qed
      from Cons.IH [OF Cons.prems(1,2) dfiles, of acc] json None live flt
      show ?thesis by (simp add: map_filter_Cons)
    next
      case (Some reg)
      then have mo: "map_of d f = Some (Parsed reg)"
        using Cons.prems(1) by (auto simp: readJSON_reg_def split: option.splits jsonfile.splits)
      show ?thesis
      proof (cases "isProcessAlive env (reg_pid reg)")
        case True
        have live: "liveAt env d f = Some (withDefaults reg)"
          using json mo True by (simp add: liveAt_def)
        have flt: "filter (\<lambda>e. \<not> (fst e \<in> set (f # files) \<and> stale env e)) d =
                   filter (\<lambda>e. \<not> (fst e \<in> set files \<and> stale env e)) d"
        proof (intro filter_cong refl)
          fix e assume e: "e \<in> set d"
          show "(\<not> (fst e \<in> set (f # files) \<and> stale env e)) =
                (\<not> (fst e \<in> set files \<and> stale env e))"
          proof (cases "fst e = f")
            case fe: True
            then have "map_of d f = Some (snd e)"
              using e Cons.prems(2) by (cases e) simp
            with mo True have "\<not> stale env e"
              by (auto simp: stale_def)
            then show ?thesis by simp
          next
            case False
            then show ?thesis by simp
          qed
        qed
        from Cons.IH [OF Cons.prems(1,2) dfiles, of "acc @ [withDefaults reg]"] json Some True live flt
        show ?thesis by (simp add: map_filter_Cons)
      next
        case False
        let ?w1 = "ignoring (unlinkSync_reg f) w"
        have w1: "registry_dir ?w1 = Some (AList.delete f d)" "state ?w1 = state w"
          using Cons.prems(1) mo by (simp_all add: ignoring_def unlinkSync_reg_def log_effect_def)
        have d1: "distinct (map fst (AList.delete f d))"
          using Cons.prems(2) by (rule distinct_delete)
        have live: "liveAt env d f = None"
          using json mo False by (simp add: liveAt_def)
        have cong: "List.map_filter (liveAt env (AList.delete f d)) files =
                    List.map_filter (liveAt env d) files"
        proof (rule map_filter_cong)
          fix x assume "x \<in> set files"
          with fnot have "x \<noteq> f" by auto
          then show "liveAt env (AList.delete f d) x = liveAt env d x"
            by (simp add: liveAt_def)
        qed
        have flt: "filter (\<lambda>e. \<not> (fst e \<in> set files \<and> stale env e)) (AList.delete f d) =
                   filter (\<lambda>e. \<not> (fst e \<in> set (f # files) \<and> stale env e)) d"
        proof -
          have "filter (\<lambda>e. \<not> (fst e \<in> set files \<and> stale env e)) (AList.delete f d) =
                filter (\<lambda>e. fst e \<noteq> f \<and> \<not> (fst e \<in> set files \<and> stale env e)) d"
            unfolding AList.delete_eq filter_filter by (intro filter_cong refl) auto
          also have "\<dots> = filter (\<lambda>e. \<not> (fst e \<in> set (f # files) \<and> stale env e)) d"
          proof (intro filter_cong refl)
            fix e assume e: "e \<in> set d"
            show "(fst e \<noteq> f \<and> \<not> (fst e \<in> set files \<and> stale env e)) =
                  (\<not> (fst e \<in> set (f # files) \<and> stale env e))"
            proof (cases "fst e = f")
              case fe: True
              then have "map_of d f = Some (snd e)"
                using e Cons.prems(2) by (cases e) simp
              with mo False json fe have "stale env e"
                by (auto simp: stale_def)
              with fe show ?thesis by simp
            next
              case False
              then show ?thesis by simp
            qed
          qed
          finally show ?thesis .
        qed
        from Cons.IH [OF w1(1) d1 dfiles, of acc] json Some False live cong flt w1(2)
        show ?thesis by (simp add: map_filter_Cons)
      qed
    qed
  qed
qed


lemma map_of_filter_distinct:
  "distinct (map fst d) \<Longrightarrow>
   map_of (filter P d) k =
     (case map_of d k of None \<Rightarrow> None | Some v \<Rightarrow> if P (k, v) then Some v else None)"
proof (induction d)
  case Nil
  then show ?case by simp
next
  case (Cons e d)
  obtain k' v' where e: "e = (k', v')" by (cases e)
  from Cons.prems e have nk: "map_of d k' = None"
    by (simp add: map_of_eq_None_iff)
  from Cons.prems have "distinct (map fst d)" by simp
  from Cons.IH [OF this] e nk show ?case
    by (auto split: option.splits)
qed

lemma liveAt_alive:
  "a \<in> set (List.map_filter (liveAt env d) fs) \<Longrightarrow> isProcessAlive env (reg_pid a)"
  by (auto simp: List.map_filter_def liveAt_def split: if_splits option.splits jsonfile.splits)

text \<open>
  Claim C6, amended. A call of \<open>getActiveAgents\<close> that does not hit the cache (there is
  no cache, or it is as old as the time to live) returns only records of live
  processes: the \<open>.json\<close> records that parse and are alive, without the caller's own.
  It removes from the disk every \<open>.json\<close> record that parses and whose process is not
  alive; a record that does not parse is skipped and stays on the disk, as does the
  record of a live process.
\<close>

theorem getActiveAgents_cache_miss:
  assumes "cacheHit env cacheTtl w = None"
    and "registry_dir w = Some d"
    and "distinct (map fst d)"
  shows "(\<forall>a\<in>set (fst (getActiveAgents env cacheTtl w)). isProcessAlive env (reg_pid a)) \<and>
    fst (getActiveAgents env cacheTtl w) =
      filter (\<lambda>a. reg_name a \<noteq> agentName (state w))
        (List.map_filter (liveAt env d) (map fst d)) \<and>
    (\<forall>f r. endsWith f ''.json'' \<and> fileContent_reg w f = Some (Parsed r) \<and>
         \<not> isProcessAlive env (reg_pid r) \<longrightarrow>
         \<not> existsSync_reg (snd (getActiveAgents env cacheTtl w)) f) \<and>
    (\<forall>f. fileContent_reg w f = Some Malformed \<longrightarrow>
         fileContent_reg (snd (getActiveAgents env cacheTtl w)) f = Some Malformed) \<and>
    (\<forall>f r. fileContent_reg w f = Some (Parsed r) \<and> isProcessAlive env (reg_pid r) \<longrightarrow>
         fileContent_reg (snd (getActiveAgents env cacheTtl w)) f = Some (Parsed r))"
proof -
  let ?fs = "map fst d"
  from scanRegistry_spec [OF assms(2,3) assms(3), of env "[]"]
  have res: "fst (scanRegistry env ?fs ([], w)) = List.map_filter (liveAt env d) ?fs"
    and dir: "registry_dir (snd (scanRegistry env ?fs ([], w))) =
       Some (filter (\<lambda>e. \<not> (fst e \<in> set ?fs \<and> stale env e)) d)"
    by simp_all
  have flt: "filter (\<lambda>e. \<not> (fst e \<in> set ?fs \<and> stale env e)) d = filter (\<lambda>e. \<not> stale env e) d"
    by (intro filter_cong refl) auto
  have g1: "fst (getActiveAgents env cacheTtl w) =
      filter (\<lambda>a. reg_name a \<noteq> agentName (state w)) (List.map_filter (liveAt env d) ?fs)"
    using assms(1,2) res by (auto simp: getActiveAgents_def split: prod.splits)
  have g2: "registry_dir (snd (getActiveAgents env cacheTtl w)) =
      Some (filter (\<lambda>e. \<not> stale env e) d)"
    using assms(1,2) dir flt by (auto simp: getActiveAgents_def split: prod.splits)
  have look: "fileContent_reg (snd (getActiveAgents env cacheTtl w)) f =
      (case map_of d f of None \<Rightarrow> None
       | Some v \<Rightarrow> if \<not> stale env (f, v) then Some v else None)" for f
    using g2 map_of_filter_distinct [OF assms(3)] by (simp add: fileContent_reg_def)
  have a: "\<forall>a\<in>set (fst (getActiveAgents env cacheTtl w)). isProcessAlive env (reg_pid a)"
    using g1 liveAt_alive by auto
  have c: "\<forall>f r. endsWith f ''.json'' \<and> fileContent_reg w f = Some (Parsed r) \<and>
         \<not> isProcessAlive env (reg_pid r) \<longrightarrow>
         \<not> existsSync_reg (snd (getActiveAgents env cacheTtl w)) f"
    using look assms(2) g2
    by (auto simp: fileContent_reg_def existsSync_reg_def stale_def)
  have m: "\<forall>f. fileContent_reg w f = Some Malformed \<longrightarrow>
         fileContent_reg (snd (getActiveAgents env cacheTtl w)) f = Some Malformed"
    using look assms(2) by (auto simp: fileContent_reg_def stale_def)
  have l: "\<forall>f r. fileContent_reg w f = Some (Parsed r) \<and> isProcessAlive env (reg_pid r) \<longrightarrow>
         fileContent_reg (snd (getActiveAgents env cacheTtl w)) f = Some (Parsed r)"
    using look assms(2) by (auto simp: fileContent_reg_def stale_def)
  from a g1 c m l show ?thesis by blast
qed

text \<open>
  Claim C6, as stated, fails on a call that hits the cache: the record of a process that
  died after the cache was filled is returned, and its file stays on the disk.
\<close>

theorem getActiveAgents_fresh_cache_counterexample:
  "\<not> isProcessAlive exampleEnv 77 \<and>
   fst (getActiveAgents exampleEnv 1000 cachedWorld) = [exampleReg ''agent-2'' 77] \<and>
   existsSync_reg (snd (getActiveAgents exampleEnv 1000 cachedWorld)) ''agent-2.json''"
  by (simp add: getActiveAgents_def cacheHit_def cachedWorld_def exampleWorld_def emptyWorld_def
      exampleEnv_def isProcessAlive_def exampleReg_def agent1_def initialState_def
      existsSync_reg_def exampleRegistry_def)

theorem getActiveAgents_cache_miss_witness:
  "cacheHit exampleEnv 1000 exampleWorld = None \<and>
   fst (getActiveAgents exampleEnv 1000 exampleWorld) = [exampleReg ''agent-4'' 1001] \<and>
   \<not> existsSync_reg (snd (getActiveAgents exampleEnv 1000 exampleWorld)) ''agent-2.json'' \<and>
   fileContent_reg (snd (getActiveAgents exampleEnv 1000 exampleWorld)) ''agent-3.json'' =
     Some Malformed \<and>
   fileContent_reg (snd (getActiveAgents exampleEnv 1000 exampleWorld)) ''agent-4.json'' =
     Some (Parsed (exampleReg ''agent-4'' 1001))"
proof -
  have h1: "cacheHit exampleEnv 1000 exampleWorld = None"
    by (simp add: cacheHit_def exampleWorld_def emptyWorld_def)
  have h2: "registry_dir exampleWorld = Some exampleRegistry"
    by (simp add: exampleWorld_def)
  have h3: "distinct (map fst exampleRegistry)"
    by (simp add: exampleRegistry_def)
  have c2: "endsWith ''agent-2.json'' ''.json'' \<and>
      fileContent_reg exampleWorld ''agent-2.json'' = Some (Parsed (exampleReg ''agent-2'' 77)) \<and>
      \<not> isProcessAlive exampleEnv (reg_pid (exampleReg ''agent-2'' 77))"
    by (simp add: endsWith_def fileContent_reg_def h2 exampleRegistry_def exampleReg_def
        isProcessAlive_def exampleEnv_def)
  have c3: "fileContent_reg exampleWorld ''agent-3.json'' = Some Malformed"
    by (simp add: fileContent_reg_def h2 exampleRegistry_def)
  have c4: "fileContent_reg exampleWorld ''agent-4.json'' = Some (Parsed (exampleReg ''agent-4'' 1001)) \<and>
      isProcessAlive exampleEnv (reg_pid (exampleReg ''agent-4'' 1001))"
    by (simp add: fileContent_reg_def h2 exampleRegistry_def exampleReg_def
        isProcessAlive_def exampleEnv_def)
  have v: "filter (\<lambda>a. reg_name a \<noteq> agentName (state exampleWorld))
        (List.map_filter (liveAt exampleEnv exampleRegistry) (map fst exampleRegistry)) =
      [exampleReg ''agent-4'' 1001]"
    by (simp add: exampleRegistry_def liveAt_def endsWith_def exampleReg_def isProcessAlive_def
        exampleEnv_def withDefaults_def exampleWorld_def emptyWorld_def agent1_def)
  note T = getActiveAgents_cache_miss [OF h1 h2 h3]
  have r1: "fst (getActiveAgents exampleEnv 1000 exampleWorld) = [exampleReg ''agent-4'' 1001]"
    using T [THEN conjunct2, THEN conjunct1] v by simp
  have r2: "\<not> existsSync_reg (snd (getActiveAgents exampleEnv 1000 exampleWorld)) ''agent-2.json''"
    using T [THEN conjunct2, THEN conjunct2, THEN conjunct1] c2 by blast
  have r3: "fileContent_reg (snd (getActiveAgents exampleEnv 1000 exampleWorld)) ''agent-3.json'' =
      Some Malformed"
    using T [THEN conjunct2, THEN conjunct2, THEN conjunct2, THEN conjunct1] c3 by blast
  have r4: "fileContent_reg (snd (getActiveAgents exampleEnv 1000 exampleWorld)) ''agent-4.json'' =
      Some (Parsed (exampleReg ''agent-4'' 1001))"
    using T [THEN conjunct2, THEN conjunct2, THEN conjunct2, THEN conjunct2] c4 by blast
  from h1 r1 r2 r3 r4 show ?thesis by simp
qed

subsection \<open>Renaming\<close>


lemma log_effect_fields [simp]:
  "state (log_effect e w) = state w"
  "registry_dir (log_effect e w) = registry_dir w"
  "inbox_dir (log_effect e w) = inbox_dir w"
  "feed_file (log_effect e w) = feed_file w"
  "base_exists (log_effect e w) = base_exists w"
  "agentsCache (log_effect e w) = agentsCache w"
  "trace (log_effect e w) = trace w @ [e]"
  by (simp_all add: log_effect_def)


lemma ensureDirSync_inbox_fields [simp]:
  "state (ensureDirSync_inbox nm w) = state w"
  "registry_dir (ensureDirSync_inbox nm w) = registry_dir w"
  by (simp_all add: ensureDirSync_inbox_def split: option.splits)

lemma rmdirSync_inbox_fields [simp]:
  "state (ignoring (rmdirSync_inbox nm) w) = state w"
  "registry_dir (ignoring (rmdirSync_inbox nm) w) = registry_dir w"
  by (simp_all add: ignoring_def rmdirSync_inbox_def split: option.splits list.splits)









lemma valid_agent2: "isValidAgentName ''agent-2''" "isValidAgentName ''agent-4''"
  by (simp_all add: isValidAgentName_def isWordChar_def)

lemma rename_taken_eval:
  "renameAgent exampleEnv ''agent-4'' exampleWorld = (Inl name_taken, exampleWorld)"
  by (simp add: renameAgent_def valid_agent2 exampleWorld_def emptyWorld_def agent1_def
      initialState_def nameTaken_def existsSync_reg_def readJSON_reg_def regFile_def
      exampleRegistry_def exampleReg_def isProcessAlive_def exampleEnv_def)


lemma rename_write_failed_eval:
  "fst (renameAgent exampleEnv ''agent-2'' (exampleWorld\<lparr>registry_dir := None\<rparr>)) = Inl write_failed"
  by (simp add: renameAgent_def valid_agent2 exampleWorld_def emptyWorld_def agent1_def
      initialState_def nameTaken_def existsSync_reg_def readJSON_reg_def regFile_def
      writeFileSync_reg_def)



section \<open>Properties of the messaging\<close>

lemma storeMessage_agentName [simp]: "agentName (storeMessage m st) = agentName st"
  by (simp add: storeMessage_def Let_def)

lemma storeMessage_registered [simp]: "registered (storeMessage m st) = registered st"
  by (simp add: storeMessage_def Let_def)

lemma msgsOf_Cons:
  "msgsOf d (f # fs) =
     (case map_of d f of Some (Parsed m) \<Rightarrow> [m] | _ \<Rightarrow> []) @ msgsOf d fs"
  by (simp add: msgsOf_def split: option.split jsonfile.split)

lemma effectsOf_Cons:
  "effectsOf box d (f # fs) =
     (case map_of d f of
        None \<Rightarrow> []
      | Some Malformed \<Rightarrow> [Unlink (InboxFilePath box f)]
      | Some (Parsed m) \<Rightarrow> [Deliver m, Unlink (InboxFilePath box f)]) @ effectsOf box d fs"
  by (simp add: effectsOf_def)

lemma msgsOf_Nil [simp]: "msgsOf d [] = []"
  by (simp add: msgsOf_def)

lemma effectsOf_Nil [simp]: "effectsOf box d [] = []"
  by (simp add: effectsOf_def)

lemma msgsOf_delete: "f \<notin> set fs \<Longrightarrow> msgsOf (AList.delete f d) fs = msgsOf d fs"
  by (induction fs) (auto simp: msgsOf_Cons)

lemma effectsOf_delete: "f \<notin> set fs \<Longrightarrow> effectsOf box (AList.delete f d) fs = effectsOf box d fs"
  by (induction fs) (auto simp: effectsOf_Cons)

lemma filter_delete:
  "filter (\<lambda>e. fst e \<notin> set fs) (AList.delete f d) = filter (\<lambda>e. fst e \<notin> set (f # fs)) d"
  unfolding AList.delete_eq filter_filter by (intro filter_cong refl) auto

lemma filter_absent:
  "map_of d f = None \<Longrightarrow>
   filter (\<lambda>e. fst e \<notin> set fs) d = filter (\<lambda>e. fst e \<notin> set (f # fs)) d"
  by (intro filter_cong refl) (auto simp: map_of_eq_None_iff)

lemma processFiles_spec:
  assumes "inbox_dir w = Some boxes" "map_of boxes box = Some d" "distinct fs"
  shows "processFiles box fs w =
     w\<lparr>state := fold storeMessage (msgsOf d fs) (state w),
       inbox_dir := Some (AList.update box (filter (\<lambda>e. fst e \<notin> set fs) d) boxes),
       trace := trace w @ effectsOf box d fs\<rparr>"
  using assms
proof (induction fs arbitrary: w boxes d)
  case Nil
  then show ?case by (simp add: update_triv)
next
  case (Cons f files)
  have dfiles: "distinct files" and fnot: "f \<notin> set files" using Cons.prems(3) by auto
  show ?case
  proof (cases "map_of d f")
    case None
    have step: "processFile box f w = w"
      using None Cons.prems(1,2)
      by (simp add: processFile_def readJSON_inbox_def unlinkSync_inbox_def ignoring_def)
    from Cons.IH [OF Cons.prems(1,2) dfiles] step None filter_absent [OF None, of files]
    show ?thesis by (simp add: msgsOf_Cons effectsOf_Cons)
  next
    case (Some c)
    let ?d1 = "AList.delete f d"
    let ?boxes1 = "AList.update box ?d1 boxes"
    have b1: "map_of ?boxes1 box = Some ?d1" by (simp add: update_conv')
    show ?thesis
    proof (cases c)
      case Malformed
      let ?w1 = "log_effect (Unlink (InboxFilePath box f)) (w\<lparr>inbox_dir := Some ?boxes1\<rparr>)"
      have step: "processFile box f w = ?w1"
        using Some Malformed Cons.prems(1,2)
        by (simp add: processFile_def readJSON_inbox_def unlinkSync_inbox_def ignoring_def)
      have i1: "inbox_dir ?w1 = Some ?boxes1" by (simp add: log_effect_def)
      from Cons.IH [OF i1 b1 dfiles] step Some Malformed fnot
      show ?thesis
        by (simp add: msgsOf_Cons effectsOf_Cons msgsOf_delete effectsOf_delete filter_delete
            log_effect_def)
    next
      case (Parsed m)
      let ?w1 = "log_effect (Unlink (InboxFilePath box f))
          ((log_effect (Deliver m) (w\<lparr>state := storeMessage m (state w)\<rparr>))
             \<lparr>inbox_dir := Some ?boxes1\<rparr>)"
      have step: "processFile box f w = ?w1"
        using Some Parsed Cons.prems(1,2)
        by (simp add: processFile_def readJSON_inbox_def unlinkSync_inbox_def ignoring_def
            Let_def log_effect_def)
      have i1: "inbox_dir ?w1 = Some ?boxes1" by (simp add: log_effect_def)
      from Cons.IH [OF i1 b1 dfiles] step Some Parsed fnot
      show ?thesis
        by (simp add: msgsOf_Cons effectsOf_Cons msgsOf_delete effectsOf_delete filter_delete
            log_effect_def)
    qed
  qed
qed


lemma messageFiles_distinct: "distinct (map fst d) \<Longrightarrow> distinct (messageFiles d)"
  by (simp add: messageFiles_def)

lemma messageFiles_set:
  "set (messageFiles d) = {f \<in> fst ` set d. endsWith f ''.json''}"
  by (auto simp: messageFiles_def)

lemma filter_messageFiles:
  "filter (\<lambda>e. fst e \<notin> set (messageFiles d)) d = filter (\<lambda>e. \<not> endsWith (fst e) ''.json'') d"
  by (intro filter_cong refl) (auto simp: messageFiles_set)

lemma messageFiles_none:
  "messageFiles (filter (\<lambda>e. \<not> endsWith (fst e) ''.json'') d) = []"
proof -
  have "set (messageFiles (filter (\<lambda>e. \<not> endsWith (fst e) ''.json'') d)) = {}"
    unfolding messageFiles_set by auto
  then show ?thesis by simp
qed

lemma scanInbox_spec:
  assumes "inbox_dir w = Some boxes" "map_of boxes (agentName (state w)) = Some d"
    and "distinct (map fst d)"
  shows "scanInbox w =
     w\<lparr>state := fold storeMessage (msgsOf d (messageFiles d)) (state w),
       inbox_dir := Some (AList.update (agentName (state w))
                            (filter (\<lambda>e. \<not> endsWith (fst e) ''.json'') d) boxes),
       isProcessingMessages := False,
       trace := trace w @ effectsOf (agentName (state w)) d (messageFiles d)\<rparr>"
proof -
  let ?w1 = "w\<lparr>isProcessingMessages := True\<rparr>"
  let ?box = "agentName (state w)"
  have i1: "inbox_dir ?w1 = Some boxes" using assms(1) by simp
  have ex: "existsSync_inbox ?w1 ?box"
    using assms(1,2) by (simp add: existsSync_inbox_def)
  have rd: "readdirSync_inbox ?w1 ?box = Some (map fst d)"
    using assms(1,2) by (simp add: readdirSync_inbox_def)
  have "scanInbox w = (processFiles ?box (messageFiles d) ?w1)\<lparr>isProcessingMessages := False\<rparr>"
    using ex rd by (simp add: scanInbox_def Let_def messageFiles_def)
  also have "processFiles ?box (messageFiles d) ?w1 =
     ?w1\<lparr>state := fold storeMessage (msgsOf d (messageFiles d)) (state ?w1),
       inbox_dir := Some (AList.update ?box
                            (filter (\<lambda>e. fst e \<notin> set (messageFiles d)) d) boxes),
       trace := trace ?w1 @ effectsOf ?box d (messageFiles d)\<rparr>"
    by (rule processFiles_spec [OF i1 assms(2) messageFiles_distinct [OF assms(3)]])
  finally show ?thesis by (simp add: filter_messageFiles)
qed

lemma fold_storeMessage_agentName [simp]:
  "agentName (fold storeMessage ms st) = agentName st"
  by (induction ms arbitrary: st) simp_all

lemma fold_storeMessage_registered [simp]:
  "registered (fold storeMessage ms st) = registered st"
  by (induction ms arbitrary: st) simp_all

lemma processInbox_spec:
  assumes "registered (state w)" "\<not> isProcessingMessages w"
    and "inbox_dir w = Some boxes" "map_of boxes (agentName (state w)) = Some d"
    and "distinct (map fst d)"
  shows "processInbox w =
     w\<lparr>state := fold storeMessage (msgsOf d (messageFiles d)) (state w),
       inbox_dir := Some (AList.update (agentName (state w))
                            (filter (\<lambda>e. \<not> endsWith (fst e) ''.json'') d) boxes),
       isProcessingMessages := False,
       pendingProcessArgs := False,
       trace := trace w @ effectsOf (agentName (state w)) d (messageFiles d)\<rparr>"
proof -
  let ?box = "agentName (state w)"
  let ?d' = "filter (\<lambda>e. \<not> endsWith (fst e) ''.json'') d"
  let ?w1 = "w\<lparr>state := fold storeMessage (msgsOf d (messageFiles d)) (state w),
       inbox_dir := Some (AList.update ?box ?d' boxes),
       isProcessingMessages := False,
       trace := trace w @ effectsOf ?box d (messageFiles d)\<rparr>"
  have s1: "scanInbox w = ?w1" by (rule scanInbox_spec [OF assms(3,4,5)])
  show ?thesis
  proof (cases "pendingProcessArgs w")
    case False
    then show ?thesis using assms(1,2) s1
      by (simp add: processInbox_def Let_def)
  next
    case True
    let ?w2 = "?w1\<lparr>pendingProcessArgs := False\<rparr>"
    have i2: "inbox_dir ?w2 = Some (AList.update ?box ?d' boxes)" by simp
    have m2: "map_of (AList.update ?box ?d' boxes) (agentName (state ?w2)) = Some ?d'"
      by (simp add: update_conv')
    have d2: "distinct (map fst ?d')" using assms(5) by (simp add: distinct_map_filter)
    have s2: "scanInbox ?w2 = ?w2"
      unfolding scanInbox_spec [OF i2 m2 d2]
      by (simp add: messageFiles_none update_triv)
    have "processInbox w = scanInbox ?w2"
      using True assms(1,2) s1 by (simp add: processInbox_def Let_def)
    then show ?thesis using s2 by simp
  qed
qed

lemma unreadOf_storeMessage:
  "unreadOf (storeMessage m st) s = unreadOf st s + (if msg_from m = s then 1 else 0)"
  by (simp add: unreadOf_def storeMessage_def Let_def)

lemma unreadOf_fold:
  "unreadOf (fold storeMessage ms st) s =
     unreadOf st s + length (filter (\<lambda>m. msg_from m = s) ms)"
  by (induction ms arbitrary: st) (simp_all add: unreadOf_storeMessage)

lemma lastN_lastN_append: "lastN k (lastN k xs @ ys) = lastN k (xs @ ys)"
proof (cases "length xs \<le> k")
  case True
  then show ?thesis by (simp add: lastN_def)
next
  case False
  have a: "lastN k xs @ ys = drop (length xs - k) (xs @ ys)"
    by (simp add: lastN_def)
  have b: "length (lastN k xs @ ys) - k = length ys"
    using False by (simp add: lastN_def)
  have "lastN k (lastN k xs @ ys) = drop (length (lastN k xs @ ys) - k) (lastN k xs @ ys)"
    by (rule lastN_def)
  also have "\<dots> = drop (length ys) (lastN k xs @ ys)"
    by (simp only: b)
  also have "\<dots> = drop (length ys) (drop (length xs - k) (xs @ ys))"
    by (simp only: a)
  also have "\<dots> = drop (length ys + (length xs - k)) (xs @ ys)"
    by (rule drop_drop)
  also have "length ys + (length xs - k) = length (xs @ ys) - k"
    using False by simp
  finally show ?thesis by (simp add: lastN_def)
qed

lemma lastN_length: "length (lastN k xs) \<le> k"
  by (simp add: lastN_def)

lemma lastN_short: "length xs \<le> k \<Longrightarrow> lastN k xs = xs"
  by (simp add: lastN_def)

lemma historyOf_storeMessage:
  assumes "length (historyOf st s) \<le> 50"
  shows "historyOf (storeMessage m st) s =
     (if msg_from m = s then lastN 50 (historyOf st s @ [m]) else historyOf st s)"
proof (cases "msg_from m = s")
  case False
  then show ?thesis by (simp add: historyOf_def storeMessage_def Let_def)
next
  case True
  let ?h = "historyOf st s @ [m]"
  have "historyOf (storeMessage m st) s = (if length ?h > 50 then tl ?h else ?h)"
    using True by (simp add: historyOf_def storeMessage_def Let_def)
  also have "\<dots> = lastN 50 ?h"
  proof (cases "length ?h > 50")
    case True
    with assms have "length ?h - 50 = Suc 0" by simp
    then have "lastN 50 ?h = drop (Suc 0) ?h" by (simp only: lastN_def)
    also have "\<dots> = tl ?h" by (simp only: drop_Suc drop_0)
    finally show ?thesis using True by (simp only: if_True)
  next
    case False
    then show ?thesis by (simp add: lastN_def)
  qed
  finally show ?thesis using True by simp
qed

lemma historyOf_fold:
  assumes "length (historyOf st s) \<le> 50"
  shows "historyOf (fold storeMessage ms st) s =
     lastN 50 (historyOf st s @ filter (\<lambda>m. msg_from m = s) ms)"
  using assms
proof (induction ms arbitrary: st)
  case Nil
  then show ?case by (simp add: lastN_short)
next
  case (Cons m ms)
  have len: "length (historyOf (storeMessage m st) s) \<le> 50"
    using historyOf_storeMessage [OF Cons.prems, of m] Cons.prems lastN_length [of 50]
    by (simp split: if_splits)
  have "historyOf (fold storeMessage (m # ms) st) s =
      lastN 50 (historyOf (storeMessage m st) s @ filter (\<lambda>m. msg_from m = s) ms)"
    using Cons.IH [OF len] by simp
  also have "\<dots> = lastN 50 (historyOf st s @ filter (\<lambda>m. msg_from m = s) (m # ms))"
    using historyOf_storeMessage [OF Cons.prems, of m]
    by (simp add: lastN_lastN_append)
  finally show ?case .
qed


lemma deliveries_append: "deliveries (xs @ ys) = deliveries xs @ deliveries ys"
  by (simp add: deliveries_def List.map_filter_def)

lemma deliveries_effectsOf: "deliveries (effectsOf box d fs) = msgsOf d fs"
  by (induction fs)
     (auto simp: effectsOf_Cons msgsOf_Cons deliveries_append deliveries_def
        split: option.splits jsonfile.splits)

text \<open>
  Claim C7. A scan of the inbox of a registered agent, started while no scan runs,
  handles the \<open>.json\<close> files in sorted order of their names, each once. For a file
  that parses it stores the message in the chat history of its sender (the last 50 are
  kept) and adds one to the unread counter of the sender, calls the delivery callback
  once and then removes the file; a file that does not parse is removed and not
  delivered. No message file is left, so the next scan delivers nothing and changes no
  state: a message file is never delivered twice and a malformed one never retried.
\<close>

theorem processInbox_delivery:
  assumes "registered (state w)" "\<not> isProcessingMessages w"
    and "inbox_dir w = Some boxes" "map_of boxes (agentName (state w)) = Some d"
    and "distinct (map fst d)"
  shows "sorted (messageFiles d) \<and> distinct (messageFiles d) \<and>
    set (messageFiles d) = {f \<in> fst ` set d. endsWith f ''.json''} \<and>
    trace (processInbox w) = trace w @ effectsOf (agentName (state w)) d (messageFiles d) \<and>
    deliveries (trace (processInbox w)) = deliveries (trace w) @ msgsOf d (messageFiles d) \<and>
    entryOf (inbox_dir (processInbox w)) (agentName (state w)) =
      Some (filter (\<lambda>e. \<not> endsWith (fst e) ''.json'') d) \<and>
    (\<forall>s. unreadOf (state (processInbox w)) s =
       unreadOf (state w) s + length (filter (\<lambda>m. msg_from m = s) (msgsOf d (messageFiles d)))) \<and>
    (\<forall>s. length (historyOf (state w) s) \<le> 50 \<longrightarrow>
       historyOf (state (processInbox w)) s =
         lastN 50 (historyOf (state w) s @
           filter (\<lambda>m. msg_from m = s) (msgsOf d (messageFiles d)))) \<and>
    trace (processInbox (processInbox w)) = trace (processInbox w) \<and>
    state (processInbox (processInbox w)) = state (processInbox w)"
proof -
  let ?box = "agentName (state w)"
  let ?d' = "filter (\<lambda>e. \<not> endsWith (fst e) ''.json'') d"
  let ?ms = "msgsOf d (messageFiles d)"
  let ?w' = "w\<lparr>state := fold storeMessage ?ms (state w),
       inbox_dir := Some (AList.update ?box ?d' boxes),
       isProcessingMessages := False,
       pendingProcessArgs := False,
       trace := trace w @ effectsOf ?box d (messageFiles d)\<rparr>"
  have p: "processInbox w = ?w'" by (rule processInbox_spec [OF assms])
  have c1: "sorted (messageFiles d)" by (simp add: messageFiles_def)
  have c2: "distinct (messageFiles d)" by (rule messageFiles_distinct [OF assms(5)])
  have c3: "set (messageFiles d) = {f \<in> fst ` set d. endsWith f ''.json''}"
    by (rule messageFiles_set)
  have c4: "trace (processInbox w) = trace w @ effectsOf ?box d (messageFiles d)"
    unfolding p by simp
  have c5: "deliveries (trace (processInbox w)) = deliveries (trace w) @ ?ms"
    unfolding c4 by (simp add: deliveries_append deliveries_effectsOf)
  have c6: "entryOf (inbox_dir (processInbox w)) ?box = Some ?d'"
    unfolding p by (simp add: entryOf_def update_conv')
  have st: "state (processInbox w) = fold storeMessage ?ms (state w)"
    unfolding p by simp
  have c7: "\<forall>s. unreadOf (state (processInbox w)) s =
       unreadOf (state w) s + length (filter (\<lambda>m. msg_from m = s) ?ms)"
    unfolding st by (simp add: unreadOf_fold)
  have c8: "\<forall>s. length (historyOf (state w) s) \<le> 50 \<longrightarrow>
       historyOf (state (processInbox w)) s =
         lastN 50 (historyOf (state w) s @ filter (\<lambda>m. msg_from m = s) ?ms)"
    unfolding st by (simp add: historyOf_fold)
  have r': "registered (state ?w')" "\<not> isProcessingMessages ?w'"
    "inbox_dir ?w' = Some (AList.update ?box ?d' boxes)"
    "map_of (AList.update ?box ?d' boxes) (agentName (state ?w')) = Some ?d'"
    "distinct (map fst ?d')"
    using assms(1,5) by (simp_all add: update_conv' distinct_map_filter)
  have p2: "processInbox ?w' = ?w'"
    unfolding processInbox_spec [OF r'] by (simp add: messageFiles_none update_triv)
  have c9: "trace (processInbox (processInbox w)) = trace (processInbox w)"
    "state (processInbox (processInbox w)) = state (processInbox w)"
    unfolding p p2 by simp_all
  from c1 c2 c3 c4 c5 c6 c7 c8 c9 show ?thesis by blast
qed


theorem processInbox_delivery_witness:
  "trace (processInbox inboxWorld) =
     [Deliver (exampleMsg ''id-1'' ''agent-4'' ''first''),
      Unlink (InboxFilePath ''agent-1'' ''169-a.json''),
      Unlink (InboxFilePath ''agent-1'' ''170-a.json''),
      Deliver (exampleMsg ''id-2'' ''agent-4'' ''second''),
      Unlink (InboxFilePath ''agent-1'' ''170-b.json'')] \<and>
   entryOf (inbox_dir (processInbox inboxWorld)) ''agent-1'' = Some [(''readme.txt'', Malformed)] \<and>
   unreadOf (state (processInbox inboxWorld)) ''agent-4'' = 2 \<and>
   historyOf (state (processInbox inboxWorld)) ''agent-4'' =
     [exampleMsg ''id-1'' ''agent-4'' ''first'', exampleMsg ''id-2'' ''agent-4'' ''second''] \<and>
   trace (processInbox (processInbox inboxWorld)) = trace (processInbox inboxWorld)"
proof -
  have st: "state inboxWorld = agent1" "agentName agent1 = ''agent-1''" "trace inboxWorld = []"
    by (simp_all add: inboxWorld_def exampleWorld_def emptyWorld_def agent1_def)
  have h1: "registered (state inboxWorld)"
    by (simp add: st agent1_def)
  have h2: "\<not> isProcessingMessages inboxWorld"
    by (simp add: inboxWorld_def exampleWorld_def emptyWorld_def)
  have h3: "inbox_dir inboxWorld = Some [(''agent-1'', exampleInbox)]"
    by (simp add: inboxWorld_def)
  have h4: "map_of [(''agent-1'', exampleInbox)] (agentName (state inboxWorld)) = Some exampleInbox"
    by (simp add: st)
  have h5: "distinct (map fst exampleInbox)"
    by (simp add: exampleInbox_def)
  have mf: "messageFiles exampleInbox = [''169-a.json'', ''170-a.json'', ''170-b.json'']"
    by (simp add: messageFiles_def exampleInbox_def endsWith_def)
  have ef: "effectsOf ''agent-1'' exampleInbox [''169-a.json'', ''170-a.json'', ''170-b.json''] =
     [Deliver (exampleMsg ''id-1'' ''agent-4'' ''first''),
      Unlink (InboxFilePath ''agent-1'' ''169-a.json''),
      Unlink (InboxFilePath ''agent-1'' ''170-a.json''),
      Deliver (exampleMsg ''id-2'' ''agent-4'' ''second''),
      Unlink (InboxFilePath ''agent-1'' ''170-b.json'')]"
    by (simp add: effectsOf_def exampleInbox_def)
  have ms: "msgsOf exampleInbox [''169-a.json'', ''170-a.json'', ''170-b.json''] =
     [exampleMsg ''id-1'' ''agent-4'' ''first'', exampleMsg ''id-2'' ''agent-4'' ''second'']"
    by (simp add: msgsOf_def exampleInbox_def)
  have fl: "filter (\<lambda>e. \<not> endsWith (fst e) ''.json'') exampleInbox = [(''readme.txt'', Malformed)]"
    by (simp add: exampleInbox_def endsWith_def)
  have u0: "unreadOf agent1 ''agent-4'' = 0" "historyOf agent1 ''agent-4'' = []"
    by (simp_all add: unreadOf_def historyOf_def agent1_def initialState_def)
  have from4: "msg_from (exampleMsg i ''agent-4'' t) = ''agent-4''" for i t
    by (simp add: exampleMsg_def)
  note T = processInbox_delivery [OF h1 h2 h3 h4 h5, unfolded mf ef ms fl st]
  have 1: "trace (processInbox inboxWorld) =
     [Deliver (exampleMsg ''id-1'' ''agent-4'' ''first''),
      Unlink (InboxFilePath ''agent-1'' ''169-a.json''),
      Unlink (InboxFilePath ''agent-1'' ''170-a.json''),
      Deliver (exampleMsg ''id-2'' ''agent-4'' ''second''),
      Unlink (InboxFilePath ''agent-1'' ''170-b.json'')]"
    using T by simp
  have 2: "entryOf (inbox_dir (processInbox inboxWorld)) ''agent-1'' = Some [(''readme.txt'', Malformed)]"
    using T by simp
  have 3: "unreadOf (state (processInbox inboxWorld)) ''agent-4'' = 2"
    using T u0 from4 by simp
  have 4: "historyOf (state (processInbox inboxWorld)) ''agent-4'' =
     [exampleMsg ''id-1'' ''agent-4'' ''first'', exampleMsg ''id-2'' ''agent-4'' ''second'']"
    using T u0 from4 by (simp add: lastN_def)
  have 5: "trace (processInbox (processInbox inboxWorld)) = trace (processInbox inboxWorld)"
    using T by simp
  from 1 2 3 4 5 show ?thesis by blast
qed

section \<open>Properties of the feed\<close>

subsection \<open>The parser reads back every event\<close>

lemma byteChar_of_char: "byteChar (of_char c) = c"
proof -
  have "byteChar n = char_of n" for n :: nat
    by (simp add: byteChar_def char_of_def bit_iff_odd)
  then show ?thesis by simp
qed

lemma hexval_hexdigit: "d < 16 \<Longrightarrow> hexval (hexdigit d) = Some d"
proof -
  assume "d < 16"
  then have "d = 0 \<or> d = 1 \<or> d = 2 \<or> d = 3 \<or> d = 4 \<or> d = 5 \<or> d = 6 \<or> d = 7 \<or>
      d = 8 \<or> d = 9 \<or> d = 10 \<or> d = 11 \<or> d = 12 \<or> d = 13 \<or> d = 14 \<or> d = 15"
    by arith
  then show ?thesis
    by (elim disjE) (simp_all add: hexval_def hexdigit_def)
qed

lemma unquote_quoteChar:
  "unquote (quoteChar c @ rest) = map_option (\<lambda>(s, r). (c # s, r)) (unquote rest)"
proof -
  consider (special) "c \<in> {CHR 0x22, CHR 0x5C, CHR 0x08, CHR 0x09, CHR 0x0A, CHR 0x0C, CHR 0x0D}"
    | (control) "c \<notin> {CHR 0x22, CHR 0x5C, CHR 0x08, CHR 0x09, CHR 0x0A, CHR 0x0C, CHR 0x0D}"
        "(of_char c :: nat) < 32"
    | (plain) "c \<notin> {CHR 0x22, CHR 0x5C, CHR 0x08, CHR 0x09, CHR 0x0A, CHR 0x0C, CHR 0x0D}"
        "\<not> (of_char c :: nat) < 32"
    by blast
  then show ?thesis
  proof cases
    case special
    then show ?thesis
      by (auto simp: quoteChar_def unescape_def)
  next
    case control
    let ?n = "of_char c :: nat"
    have q: "quoteChar c = [CHR 0x5C, CHR ''u'', CHR ''0'', CHR ''0'',
        hexdigit (?n div 16), hexdigit (?n mod 16)]"
      using control by (simp add: quoteChar_def)
    have h: "hexval (hexdigit (?n div 16)) = Some (?n div 16)"
      "hexval (hexdigit (?n mod 16)) = Some (?n mod 16)"
      using control(2) by (simp_all add: hexval_hexdigit)
    have b: "byteChar (16 * (?n div 16) + ?n mod 16) = c"
      using byteChar_of_char [of c] by simp
    show ?thesis unfolding q by (simp add: h byteChar_of_char)
  next
    case plain
    then show ?thesis by (simp add: quoteChar_def)
  qed
qed

lemma unquote_quoted:
  "unquote (concat (map quoteChar s) @ CHR 0x22 # rest) = Some (s, rest)"
  by (induction s) (simp_all add: unquote_quoteChar)

lemma parseString_quoted: "parseString (QuoteJSONString v @ rest) = Some (v, rest)"
  by (simp add: parseString_def QuoteJSONString_def unquote_quoted)

lemma expect_prefix: "expect p (p @ rest) = Some rest"
  by (simp add: expect_def startsWith_def)

lemma parseMember_member: "parseMember k (member k v @ rest) = Some (v, rest)"
proof -
  have "member k v @ rest = (QuoteJSONString k @ '':'') @ (QuoteJSONString v @ rest)"
    by (simp add: member_def)
  then show ?thesis
    by (simp only: parseMember_def expect_prefix option.case parseString_quoted)
qed

lemma typeOfName_eventTypeName: "typeOfName (eventTypeName t) = Some t"
  by (cases t) (simp_all add: typeOfName_def)

lemma parseOptMember_some:
  "parseOptMember k (optMember k (Some v) @ rest) = (Some v, rest)"
  using expect_prefix [of "'',''" "member k v @ rest"]
  by (simp add: parseOptMember_def optMember_def parseMember_member)

lemma parseOptMember_end: "parseOptMember k ''}'' = (None, ''}'')"
  by (simp add: parseOptMember_def expect_def startsWith_def)

lemma parseOptMember_target_preview:
  "parseOptMember ''target'' (optMember ''preview'' (Some v) @ rest) =
     (None, optMember ''preview'' (Some v) @ rest)"
  by (simp add: parseOptMember_def optMember_def expect_def startsWith_def parseMember_def
      member_def QuoteJSONString_def quoteChar_def)

lemma parseEventLine_stringify: "parseEventLine (JSON_stringify_event e) = Some e"
proof -
  let ?tail = "optMember ''target'' (ev_target e) @ optMember ''preview'' (ev_preview e) @ ''}''"
  have a: "JSON_stringify_event e =
      ''{'' @ (member ''ts'' (ev_ts e) @ '','' @ (member ''agent'' (ev_agent e) @ '','' @
        (member ''type'' (eventTypeName (ev_type e)) @ ?tail)))"
    by (simp add: JSON_stringify_event_def)
  have pv: "parseOptMember ''preview'' (optMember ''preview'' (ev_preview e) @ ''}'') =
      (ev_preview e, ''}'')"
    using parseOptMember_some [of "''preview''" _ "''}''"] parseOptMember_end
    by (cases "ev_preview e") (simp_all add: optMember_def)
  have tg: "parseOptMember ''target'' ?tail =
      (ev_target e, optMember ''preview'' (ev_preview e) @ ''}'')"
  proof (cases "ev_target e")
    case (Some t)
    then show ?thesis using parseOptMember_some [of "''target''" t] by simp
  next
    case None
    then show ?thesis
      using parseOptMember_target_preview [of _ "''}''"] parseOptMember_end
      by (cases "ev_preview e") (simp_all add: optMember_def)
  qed
  show ?thesis
    unfolding a parseEventLine_def
    by (simp only: expect_prefix parseMember_member typeOfName_eventTypeName tg pv
        option.case prod.case if_True refl FeedEvent.surjective [symmetric] old.unit.exhaust)
       simp
qed

subsection \<open>Round trip through the feed file\<close>

lemmas parser_defs = parseEventLine_def expect_def startsWith_def parseMember_def parseString_def
  QuoteJSONString_def quoteChar_def parseOptMember_def typeOfName_def unescape_def hexval_def
  JSON_stringify_event_def member_def optMember_def hexdigit_def byteChar_def

lemma parse_join: "parseEventLine (JSON_stringify_event joinEvent) = Some joinEvent"
  by (simp add: parser_defs joinEvent_def)

lemma parse_reserve: "parseEventLine (JSON_stringify_event reserveEvent) = Some reserveEvent"
  by (simp add: parser_defs reserveEvent_def)

lemma hexdigit_not_nl: "d < 16 \<Longrightarrow> hexdigit d \<noteq> CHR 0x0A"
proof -
  assume "d < 16"
  then have "hexdigit d \<in> set ''0123456789abcdef''"
    unfolding hexdigit_def by (intro nth_mem) simp
  then show ?thesis by auto
qed

lemma quoteChar_no_nl: "CHR 0x0A \<notin> set (quoteChar c)"
proof -
  have "(of_char c :: nat) < 32 \<Longrightarrow> (of_char c :: nat) div 16 < 16" by simp
  moreover have "(of_char c :: nat) mod 16 < 16" by simp
  ultimately show ?thesis
    using hexdigit_not_nl [of "of_char c div 16"] hexdigit_not_nl [of "of_char c mod 16"]
    by (auto simp: quoteChar_def)
qed

lemma QuoteJSONString_no_nl: "CHR 0x0A \<notin> set (QuoteJSONString s)"
  using quoteChar_no_nl by (auto simp: QuoteJSONString_def)

lemma member_no_nl: "CHR 0x0A \<notin> set (member k v)"
  using QuoteJSONString_no_nl by (simp add: member_def)

lemma optMember_no_nl: "CHR 0x0A \<notin> set (optMember k v)"
  using member_no_nl by (simp add: optMember_def split: option.split)

lemma stringify_no_nl: "CHR 0x0A \<notin> set (JSON_stringify_event e)"
  using member_no_nl optMember_no_nl by (simp add: JSON_stringify_event_def)

lemma stringify_shape: "\<exists>mid. JSON_stringify_event e = CHR ''{'' # mid @ ''}''"
  by (simp add: JSON_stringify_event_def)

lemma split_nl_no_nl: "CHR 0x0A \<notin> set s \<Longrightarrow> split_nl s = [s]"
  by (induction s) auto

lemma split_nl_nonempty [simp]: "split_nl s \<noteq> []"
  by (induction s) auto

lemma split_nl_append: "split_nl (xs @ CHR 0x0A # ys) = split_nl xs @ split_nl ys"
  by (induction xs) (auto simp: hd_append)

lemma split_nl_last:
  assumes "c = [] \<or> last c = CHR 0x0A" "CHR 0x0A \<notin> set s"
  shows "\<exists>pre. split_nl (c @ s) = pre @ [s]"
proof (cases "c = []")
  case True
  then show ?thesis using split_nl_no_nl [OF assms(2)] by simp
next
  case False
  with assms(1) obtain c' where c: "c = c' @ [CHR 0x0A]"
    by (metis append_butlast_last_id)
  have "split_nl (c @ s) = split_nl c' @ [s]"
    unfolding c using split_nl_append [of c' s] split_nl_no_nl [OF assms(2)] by simp
  then show ?thesis by blast
qed

lemma trim_framed:
  assumes "s = a # mid @ [z]" "\<not> isWhiteSpace a" "\<not> isWhiteSpace z"
  shows "trim (c @ s @ [CHR 0x0A]) = dropWhile isWhiteSpace c @ s"
proof -
  have ws: "isWhiteSpace (CHR 0x0A)" by (simp add: isWhiteSpace_def)
  have d1: "dropWhile isWhiteSpace (c @ s @ [CHR 0x0A]) = dropWhile isWhiteSpace c @ s @ [CHR 0x0A]"
    using assms(1,2) by (induction c) auto
  have "rev (dropWhile isWhiteSpace c @ s @ [CHR 0x0A]) =
        CHR 0x0A # z # rev mid @ a # rev (dropWhile isWhiteSpace c)"
    using assms(1) by simp
  then have "dropWhile isWhiteSpace (rev (dropWhile isWhiteSpace c @ s @ [CHR 0x0A])) =
        z # rev mid @ a # rev (dropWhile isWhiteSpace c)"
    using ws assms(3) by simp
  then show ?thesis unfolding trim_def d1 using assms(1) by simp
qed

lemma dropWhile_last:
  "dropWhile P c = [] \<or> last (dropWhile P c) = last c"
  by (induction c) auto

lemma slice_from_end_last:
  "0 \<le> k \<Longrightarrow> slice_from_end k (xs @ [e]) \<noteq> [] \<and> last (slice_from_end k (xs @ [e])) = e"
  by (auto simp: slice_from_end_def)

lemma appendEvent_feed:
  "feed_file (appendEvent e w) =
     Some ((case feed_file w of None \<Rightarrow> [] | Some c \<Rightarrow> c) @ JSON_stringify_event e @ [CHR 0x0A])"
  by (simp add: appendEvent_def Let_def ignoring_def appendFileSync_feed_def mkdirSync_base_def
      log_effect_def)

text \<open>
  Claim C8, amended. For a feed file that is absent, empty or ends with a line feed
  (no torn last line), and an event that \<open>JSON.parse\<close> reads back from its
  \<open>JSON.stringify\<close> text: after \<open>appendEvent\<close>, \<open>readEvents\<close> with any limit from 0 on
  returns a list that is not empty and whose last element is that event.
\<close>

theorem feed_round_trip:
  assumes parse: "JSON_parse (JSON_stringify_event e) = Some e"
    and tail: "feed_file w = None \<or> feed_file w = Some [] \<or>
               (\<exists>c. feed_file w = Some (c @ [CHR 0x0A]))"
    and limit: "0 \<le> limit"
  shows "readEvents JSON_parse limit (appendEvent e w) \<noteq> [] \<and>
         last (readEvents JSON_parse limit (appendEvent e w)) = e"
proof -
  let ?s = "JSON_stringify_event e"
  let ?c = "case feed_file w of None \<Rightarrow> [] | Some c \<Rightarrow> c"
  let ?c' = "dropWhile isWhiteSpace ?c"
  obtain mid where mid: "?s = CHR ''{'' # mid @ ''}''" using stringify_shape by blast
  have cnl: "?c = [] \<or> last ?c = CHR 0x0A" using tail by auto
  have c'nl: "?c' = [] \<or> last ?c' = CHR 0x0A"
  proof (cases "?c = []")
    case True
    then show ?thesis by simp
  next
    case False
    with cnl have "last ?c = CHR 0x0A" by simp
    with dropWhile_last [of isWhiteSpace ?c] show ?thesis by metis
  qed
  have tr: "trim (?c @ ?s @ [CHR 0x0A]) = ?c' @ ?s"
    using mid by (intro trim_framed [of _ "CHR ''{''" mid "CHR ''}''"]) (simp_all add: isWhiteSpace_def)
  obtain pre where pre: "split_nl (?c' @ ?s) = pre @ [?s]"
    using split_nl_last [OF c'nl stringify_no_nl] by blast
  have ne: "?c' @ ?s \<noteq> []" using mid by simp
  have "readEvents JSON_parse limit (appendEvent e w) =
        slice_from_end limit (List.map_filter JSON_parse (pre @ [?s]))"
    by (simp only: readEvents_def appendEvent_feed option.case tr Let_def ne if_False pre)
  also have "List.map_filter JSON_parse (pre @ [?s]) = List.map_filter JSON_parse pre @ [e]"
    using parse by (simp add: List.map_filter_def)
  finally show ?thesis using slice_from_end_last [OF limit] by simp
qed


lemma parse_release: "parseEventLine (JSON_stringify_event releaseEvent) = Some releaseEvent"
  by (simp add: parser_defs releaseEvent_def)

theorem feed_round_trip_witness:
  "parseEventLine (JSON_stringify_event reserveEvent) = Some reserveEvent \<and>
   readEvents parseEventLine 20 (appendEvent reserveEvent feedWorld) \<noteq> [] \<and>
   last (readEvents parseEventLine 20 (appendEvent reserveEvent feedWorld)) = reserveEvent"
proof -
  have h1: "parseEventLine (JSON_stringify_event reserveEvent) = Some reserveEvent"
    by (rule parse_reserve)
  have h2: "feed_file feedWorld = None \<or> feed_file feedWorld = Some [] \<or>
      (\<exists>c. feed_file feedWorld = Some (c @ [CHR 0x0A]))"
    by (simp add: feedWorld_def)
  have h3: "(0::int) \<le> 20" by simp
  from feed_round_trip [where JSON_parse = parseEventLine, OF h1 h2 h3] h1
  show ?thesis by simp
qed

text \<open>
  Claim C8, as stated, fails on a feed whose last line is torn (a write that stopped
  before its line feed): the appended event continues the torn line, the line does not
  parse and is skipped, and the last event read is an older one.
\<close>

theorem feed_torn_line_counterexample:
  "parseEventLine (JSON_stringify_event releaseEvent) = Some releaseEvent \<and>
   readEvents parseEventLine 20 (appendEvent releaseEvent tornWorld) = [joinEvent] \<and>
   joinEvent \<noteq> releaseEvent"
proof -
  have 1: "parseEventLine (JSON_stringify_event releaseEvent) = Some releaseEvent"
    by (rule parse_release)
  let ?L = "JSON_stringify_event joinEvent"
  let ?T = "take 12 (JSON_stringify_event reserveEvent)"
  let ?S = "JSON_stringify_event releaseEvent"
  have T: "?T = ''{'' @ QuoteJSONString ''ts'' @ '':'' @ CHR 0x22 # ''2026-''"
    by (simp add: JSON_stringify_event_def member_def QuoteJSONString_def quoteChar_def
        reserveEvent_def)
  obtain mid where mid: "?S = CHR ''{'' # mid @ ''}''" using stringify_shape by blast
  have framed: "?T @ ?S = CHR ''{'' # (tl ?T @ CHR ''{'' # mid) @ ''}''"
    unfolding T mid by simp
  have L0: "dropWhile isWhiteSpace (?L @ [CHR 0x0A]) = ?L @ [CHR 0x0A]"
    by (simp add: JSON_stringify_event_def isWhiteSpace_def)
  have ff: "feed_file (appendEvent releaseEvent tornWorld) =
      Some ((?L @ [CHR 0x0A]) @ (?T @ ?S) @ [CHR 0x0A])"
    by (simp add: appendEvent_feed tornWorld_def)
  have tr: "trim ((?L @ [CHR 0x0A]) @ (?T @ ?S) @ [CHR 0x0A]) = ?L @ CHR 0x0A # (?T @ ?S)"
    using trim_framed [OF framed, of "?L @ [CHR 0x0A]"] L0 by (simp add: isWhiteSpace_def)
  have nlT: "CHR 0x0A \<notin> set (?T @ ?S)"
    using stringify_no_nl [of releaseEvent] stringify_no_nl [of reserveEvent]
      in_set_takeD [of "CHR 0x0A" 12 "JSON_stringify_event reserveEvent"]
    by auto
  have sp: "split_nl (?L @ CHR 0x0A # (?T @ ?S)) = [?L, ?T @ ?S]"
    using split_nl_append [of ?L "?T @ ?S"] split_nl_no_nl [OF stringify_no_nl, of joinEvent]
      split_nl_no_nl [OF nlT]
    by simp
  have bad: "parseEventLine (?T @ ?S) = None"
    unfolding T by (simp add: parser_defs releaseEvent_def)
  have ne: "?L @ CHR 0x0A # (?T @ ?S) \<noteq> []" by simp
  have 2: "readEvents parseEventLine 20 (appendEvent releaseEvent tornWorld) = [joinEvent]"
    unfolding readEvents_def ff option.case tr Let_def sp
    using ne bad parse_join by (simp add: slice_from_end_def)
  have 3: "joinEvent \<noteq> releaseEvent"
    by (simp add: joinEvent_def releaseEvent_def)
  from 1 2 3 show ?thesis by simp
qed

section \<open>Properties of the shutdown\<close>

lemma logEvent_trace:
  "trace (logEvent env a ty tg None w) =
     trace w @ optEffect (\<not> base_exists w) (Mkdir BasePath) @
     [AppendFile FeedPath (eventLine env a ty tg)]"
  by (simp add: logEvent_def appendEvent_def Let_def ignoring_def appendFileSync_feed_def
      mkdirSync_base_def log_effect_def optEffect_def eventLine_def)

lemma logEvent_feed:
  "feed_file (logEvent env a ty tg None w) =
     Some ((case feed_file w of None \<Rightarrow> [] | Some c \<Rightarrow> c) @ eventLine env a ty tg)"
  by (simp add: logEvent_def appendEvent_feed eventLine_def)

lemma logEvent_fields [simp]:
  "state (logEvent env a ty tg pv w) = state w"
  "registry_dir (logEvent env a ty tg pv w) = registry_dir w"
  "base_exists (logEvent env a ty tg pv w) = True"
  "pendingEdits (logEvent env a ty tg pv w) = pendingEdits w"
  "recentCommitTimer (logEvent env a ty tg pv w) = recentCommitTimer w"
  "recentTestTimer (logEvent env a ty tg pv w) = recentTestTimer w"
  "recentEditTimer (logEvent env a ty tg pv w) = recentEditTimer w"
  by (simp_all add: logEvent_def appendEvent_def Let_def ignoring_def appendFileSync_feed_def
      mkdirSync_base_def log_effect_def)

lemma existsSync_reg_cong:
  "registry_dir w' = registry_dir w \<Longrightarrow> existsSync_reg w' f = existsSync_reg w f"
  by (simp add: existsSync_reg_def)

lemma readJSON_reg_cong:
  "registry_dir w' = registry_dir w \<Longrightarrow> readJSON_reg w' f = readJSON_reg w f"
  by (simp add: readJSON_reg_def)

lemma fold_logEvent_release:
  assumes "base_exists w"
  shows "trace (fold (\<lambda>p. logEvent env a Release (Some p) None) ps w) =
           trace w @ map (\<lambda>p. AppendFile FeedPath (eventLine env a Release (Some p))) ps \<and>
         feed_file (fold (\<lambda>p. logEvent env a Release (Some p) None) ps w) =
           (if ps = [] then feed_file w
            else Some ((case feed_file w of None \<Rightarrow> [] | Some c \<Rightarrow> c) @
                       concat (map (\<lambda>p. eventLine env a Release (Some p)) ps))) \<and>
         state (fold (\<lambda>p. logEvent env a Release (Some p) None) ps w) = state w \<and>
         registry_dir (fold (\<lambda>p. logEvent env a Release (Some p) None) ps w) = registry_dir w \<and>
         pendingEdits (fold (\<lambda>p. logEvent env a Release (Some p) None) ps w) = pendingEdits w \<and>
         recentCommitTimer (fold (\<lambda>p. logEvent env a Release (Some p) None) ps w) =
           recentCommitTimer w \<and>
         recentTestTimer (fold (\<lambda>p. logEvent env a Release (Some p) None) ps w) =
           recentTestTimer w \<and>
         recentEditTimer (fold (\<lambda>p. logEvent env a Release (Some p) None) ps w) =
           recentEditTimer w"
  using assms
proof (induction ps arbitrary: w)
  case Nil
  then show ?case by simp
next
  case (Cons p ps)
  have b: "base_exists (logEvent env a Release (Some p) None w)" by simp
  from Cons.IH [OF b] Cons.prems show ?case
    by (simp add: logEvent_trace logEvent_feed optEffect_def)
qed

lemma updateRegistration_trace:
  "trace (updateRegistration env w) =
     trace w @ optEffect (registered (state w) \<and>
                          readJSON_reg w (regFile (agentName (state w))) \<noteq> None)
                (WriteFile (RegistryPath (regFile (agentName (state w)))))"
  by (auto simp: updateRegistration_def Let_def optEffect_def ignoring_def writeFileSync_reg_def
      readJSON_reg_def existsSync_reg_def log_effect_def split: option.splits jsonfile.splits)

lemma updateRegistration_state [simp]:
  "registered (state (updateRegistration env w)) = registered (state w)"
  "agentName (state (updateRegistration env w)) = agentName (state w)"
  "reservations (state (updateRegistration env w)) = reservations (state w)"
  "registryFlushTimer (state (updateRegistration env w)) = registryFlushTimer (state w)"
  "watcher (state (updateRegistration env w)) = watcher (state w)"
  "watcherDebounceTimer (state (updateRegistration env w)) = watcherDebounceTimer (state w)"
  "watcherRetryTimer (state (updateRegistration env w)) = watcherRetryTimer (state w)"
  by (auto simp: updateRegistration_def Let_def ignoring_def writeFileSync_reg_def
      readJSON_reg_def existsSync_reg_def log_effect_def split: option.splits jsonfile.splits)

lemma updateRegistration_fields [simp]:
  "base_exists (updateRegistration env w) = base_exists w"
  "feed_file (updateRegistration env w) = feed_file w"
  "pendingEdits (updateRegistration env w) = pendingEdits w"
  "recentCommitTimer (updateRegistration env w) = recentCommitTimer w"
  "recentTestTimer (updateRegistration env w) = recentTestTimer w"
  "recentEditTimer (updateRegistration env w) = recentEditTimer w"
  by (auto simp: updateRegistration_def Let_def ignoring_def writeFileSync_reg_def
      readJSON_reg_def existsSync_reg_def log_effect_def split: option.splits jsonfile.splits)

lemma map_of_update_exists:
  "map_of d k \<noteq> None \<Longrightarrow> (map_of (AList.update k v d) f \<noteq> None) = (map_of d f \<noteq> None)"
  by (simp add: update_conv')

lemma updateRegistration_exists [simp]:
  "existsSync_reg (updateRegistration env w) f = existsSync_reg w f"
  by (auto simp: updateRegistration_def Let_def ignoring_def writeFileSync_reg_def
      readJSON_reg_def existsSync_reg_def log_effect_def update_conv'
      split: option.splits jsonfile.splits)

lemma cleanup_trace:
  "trace (cleanup w) =
     trace w @ map (\<lambda>p. ClearTimeout (PendingEditTimer p)) (pendingEdits w) @
     optEffect (recentCommitTimer w) (ClearTimeout RecentCommitTimer) @
     optEffect (recentTestTimer w) (ClearTimeout RecentTestTimer) @
     optEffect (recentEditTimer w) (ClearTimeout RecentEditTimer)"
proof -
  have f: "fold (\<lambda>p. log_effect (ClearTimeout (PendingEditTimer p))) ps w =
           w\<lparr>trace := trace w @ map (\<lambda>p. ClearTimeout (PendingEditTimer p)) ps\<rparr>" for ps w
    by (induction ps arbitrary: w) (simp_all add: log_effect_def)
  show ?thesis
    by (simp add: cleanup_def Let_def f optEffect_def log_effect_def)
qed

lemma cleanup_fields [simp]:
  "state (cleanup w) = state w"
  "registry_dir (cleanup w) = registry_dir w"
  "feed_file (cleanup w) = feed_file w"
  "pendingEdits (cleanup w) = []"
  "recentCommitTimer (cleanup w) = False"
  "recentTestTimer (cleanup w) = False"
  "recentEditTimer (cleanup w) = False"
proof -
  have f: "fold (\<lambda>p. log_effect (ClearTimeout (PendingEditTimer p))) ps w =
           w\<lparr>trace := trace w @ map (\<lambda>p. ClearTimeout (PendingEditTimer p)) ps\<rparr>" for ps w
    by (induction ps arbitrary: w) (simp_all add: log_effect_def)
  show "state (cleanup w) = state w"
    "registry_dir (cleanup w) = registry_dir w"
    "feed_file (cleanup w) = feed_file w"
    "pendingEdits (cleanup w) = []"
    "recentCommitTimer (cleanup w) = False"
    "recentTestTimer (cleanup w) = False"
    "recentEditTimer (cleanup w) = False"
    by (simp_all add: cleanup_def Let_def f log_effect_def)
qed

lemma stopWatcher_trace:
  "trace (stopWatcher w) =
     trace w @ optEffect (watcherDebounceTimer (state w)) (ClearTimeout WatcherDebounceTimer) @
     optEffect (watcherRetryTimer (state w)) (ClearTimeout WatcherRetryTimer) @
     optEffect (watcher (state w)) WatcherClose"
  by (simp add: stopWatcher_def Let_def optEffect_def log_effect_def)

lemma stopWatcher_fields [simp]:
  "registered (state (stopWatcher w)) = registered (state w)"
  "agentName (state (stopWatcher w)) = agentName (state w)"
  "reservations (state (stopWatcher w)) = reservations (state w)"
  "registryFlushTimer (state (stopWatcher w)) = registryFlushTimer (state w)"
  "watcher (state (stopWatcher w)) = False"
  "watcherDebounceTimer (state (stopWatcher w)) = False"
  "watcherRetryTimer (state (stopWatcher w)) = False"
  "registry_dir (stopWatcher w) = registry_dir w"
  "feed_file (stopWatcher w) = feed_file w"
  "pendingEdits (stopWatcher w) = pendingEdits w"
  "recentCommitTimer (stopWatcher w) = recentCommitTimer w"
  "recentTestTimer (stopWatcher w) = recentTestTimer w"
  "recentEditTimer (stopWatcher w) = recentEditTimer w"
  by (simp_all add: stopWatcher_def Let_def log_effect_def)

lemma unregister_trace:
  "trace (unregister w) =
     trace w @ optEffect (registered (state w) \<and> existsSync_reg w (regFile (agentName (state w))))
                (Unlink (RegistryPath (regFile (agentName (state w)))))"
  by (auto simp: unregister_def Let_def invalidateAgentsCache_def ignoring_def unlinkSync_reg_def
      existsSync_reg_def optEffect_def log_effect_def split: option.splits)

lemma unregister_fields:
  assumes "registered (state w)"
  shows "\<not> registered (state (unregister w))"
    "\<not> existsSync_reg (unregister w) (regFile (agentName (state w)))"
    "reservations (state (unregister w)) = reservations (state w)"
    "registryFlushTimer (state (unregister w)) = registryFlushTimer (state w)"
    "watcher (state (unregister w)) = watcher (state w)"
    "watcherDebounceTimer (state (unregister w)) = watcherDebounceTimer (state w)"
    "watcherRetryTimer (state (unregister w)) = watcherRetryTimer (state w)"
    "feed_file (unregister w) = feed_file w"
    "pendingEdits (unregister w) = pendingEdits w"
    "recentCommitTimer (unregister w) = recentCommitTimer w"
    "recentTestTimer (unregister w) = recentTestTimer w"
    "recentEditTimer (unregister w) = recentEditTimer w"
  using assms
  by (auto simp: unregister_def Let_def invalidateAgentsCache_def ignoring_def unlinkSync_reg_def
      existsSync_reg_def log_effect_def delete_conv' split: option.splits)

lemma removeAllReservations_spec:
  assumes "base_exists w"
  shows "trace (snd (removeAllReservations env w)) =
      trace w @ optEffect (registered (state w) \<and>
                           readJSON_reg w (regFile (agentName (state w))) \<noteq> None)
                 (WriteFile (RegistryPath (regFile (agentName (state w))))) @
      map (\<lambda>r. AppendFile FeedPath (eventLine env (agentName (state w)) Release (Some (pattern r))))
        (reservations (state w))"
    "fst (removeAllReservations env w) = map pattern (reservations (state w))"
    "feed_file (snd (removeAllReservations env w)) =
      (if reservations (state w) = [] then feed_file w
       else Some ((case feed_file w of None \<Rightarrow> [] | Some c \<Rightarrow> c) @
         concat (map (\<lambda>r. eventLine env (agentName (state w)) Release (Some (pattern r)))
           (reservations (state w)))))"
    "registered (state (snd (removeAllReservations env w))) = registered (state w)"
    "agentName (state (snd (removeAllReservations env w))) = agentName (state w)"
    "reservations (state (snd (removeAllReservations env w))) = []"
    "registryFlushTimer (state (snd (removeAllReservations env w))) = registryFlushTimer (state w)"
    "watcher (state (snd (removeAllReservations env w))) = watcher (state w)"
    "watcherDebounceTimer (state (snd (removeAllReservations env w))) =
       watcherDebounceTimer (state w)"
    "watcherRetryTimer (state (snd (removeAllReservations env w))) = watcherRetryTimer (state w)"
    "existsSync_reg (snd (removeAllReservations env w)) f = existsSync_reg w f"
    "pendingEdits (snd (removeAllReservations env w)) = pendingEdits w"
    "recentCommitTimer (snd (removeAllReservations env w)) = recentCommitTimer w"
    "recentTestTimer (snd (removeAllReservations env w)) = recentTestTimer w"
    "recentEditTimer (snd (removeAllReservations env w)) = recentEditTimer w"
proof -
  let ?w1 = "w\<lparr>state := (state w)\<lparr>reservations := []\<rparr>\<rparr>"
  let ?w2 = "updateRegistration env ?w1"
  let ?ps = "map pattern (reservations (state w))"
  let ?w3 = "fold (\<lambda>p. logEvent env (agentName (state ?w2)) Release (Some p) None) ?ps ?w2"
  have r: "removeAllReservations env w = (?ps, ?w3)"
    by (simp add: removeAllReservations_def Let_def)
  have b2: "base_exists ?w2" using assms by simp
  note F = fold_logEvent_release [OF b2, of env "agentName (state ?w2)" ?ps]
  have rj: "readJSON_reg ?w1 f = readJSON_reg w f" for f
    by (simp add: readJSON_reg_def)
  have ex: "existsSync_reg ?w1 f = existsSync_reg w f" for f
    by (simp add: existsSync_reg_def)
  show "trace (snd (removeAllReservations env w)) =
      trace w @ optEffect (registered (state w) \<and>
                           readJSON_reg w (regFile (agentName (state w))) \<noteq> None)
                 (WriteFile (RegistryPath (regFile (agentName (state w))))) @
      map (\<lambda>r. AppendFile FeedPath (eventLine env (agentName (state w)) Release (Some (pattern r))))
        (reservations (state w))"
    unfolding r snd_conv using F
    by (simp add: updateRegistration_trace rj comp_def)
  show "fst (removeAllReservations env w) = map pattern (reservations (state w))"
    unfolding r by simp
  show "feed_file (snd (removeAllReservations env w)) =
      (if reservations (state w) = [] then feed_file w
       else Some ((case feed_file w of None \<Rightarrow> [] | Some c \<Rightarrow> c) @
         concat (map (\<lambda>r. eventLine env (agentName (state w)) Release (Some (pattern r)))
           (reservations (state w)))))"
    unfolding r snd_conv using F by (simp add: comp_def)
  show "registered (state (snd (removeAllReservations env w))) = registered (state w)"
    "agentName (state (snd (removeAllReservations env w))) = agentName (state w)"
    "reservations (state (snd (removeAllReservations env w))) = []"
    "registryFlushTimer (state (snd (removeAllReservations env w))) = registryFlushTimer (state w)"
    "watcher (state (snd (removeAllReservations env w))) = watcher (state w)"
    "watcherDebounceTimer (state (snd (removeAllReservations env w))) =
       watcherDebounceTimer (state w)"
    "watcherRetryTimer (state (snd (removeAllReservations env w))) = watcherRetryTimer (state w)"
    "pendingEdits (snd (removeAllReservations env w)) = pendingEdits w"
    "recentCommitTimer (snd (removeAllReservations env w)) = recentCommitTimer w"
    "recentTestTimer (snd (removeAllReservations env w)) = recentTestTimer w"
    "recentEditTimer (snd (removeAllReservations env w)) = recentEditTimer w"
    unfolding r snd_conv using F by simp_all
  have "existsSync_reg ?w3 f = existsSync_reg ?w2 f"
    using F by (intro existsSync_reg_cong) simp
  then show "existsSync_reg (snd (removeAllReservations env w)) f = existsSync_reg w f"
    unfolding r snd_conv by (simp add: ex)
qed

lemma session_shutdown_effects:
  assumes "registered (state w)"
  shows "trace (session_shutdown env w) =
      trace w @
      optEffect (\<not> base_exists w) (Mkdir BasePath) @
      [AppendFile FeedPath (eventLine env (agentName (state w)) Leave None)] @
      optEffect (reservations (state w) \<noteq> [] \<and>
                 readJSON_reg w (regFile (agentName (state w))) \<noteq> None)
        (WriteFile (RegistryPath (regFile (agentName (state w))))) @
      map (\<lambda>r. AppendFile FeedPath (eventLine env (agentName (state w)) Release (Some (pattern r))))
        (reservations (state w)) @
      optEffect (registryFlushTimer (state w)) (ClearTimeout RegistryFlushTimer) @
      map (\<lambda>p. ClearTimeout (PendingEditTimer p)) (pendingEdits w) @
      optEffect (recentCommitTimer w) (ClearTimeout RecentCommitTimer) @
      optEffect (recentTestTimer w) (ClearTimeout RecentTestTimer) @
      optEffect (recentEditTimer w) (ClearTimeout RecentEditTimer) @
      optEffect (watcherDebounceTimer (state w)) (ClearTimeout WatcherDebounceTimer) @
      optEffect (watcherRetryTimer (state w)) (ClearTimeout WatcherRetryTimer) @
      optEffect (watcher (state w)) WatcherClose @
      optEffect (existsSync_reg w (regFile (agentName (state w))))
        (Unlink (RegistryPath (regFile (agentName (state w))))) \<and>
    feed_file (session_shutdown env w) =
      Some ((case feed_file w of None \<Rightarrow> [] | Some c \<Rightarrow> c) @
            eventLine env (agentName (state w)) Leave None @
            concat (map (\<lambda>r. eventLine env (agentName (state w)) Release (Some (pattern r)))
              (reservations (state w)))) \<and>
    \<not> registered (state (session_shutdown env w)) \<and>
    reservations (state (session_shutdown env w)) = [] \<and>
    \<not> existsSync_reg (session_shutdown env w) (regFile (agentName (state w))) \<and>
    \<not> registryFlushTimer (state (session_shutdown env w)) \<and>
    pendingEdits (session_shutdown env w) = [] \<and>
    \<not> recentCommitTimer (session_shutdown env w) \<and>
    \<not> recentTestTimer (session_shutdown env w) \<and>
    \<not> recentEditTimer (session_shutdown env w) \<and>
    \<not> watcherDebounceTimer (state (session_shutdown env w)) \<and>
    \<not> watcherRetryTimer (state (session_shutdown env w)) \<and>
    \<not> watcher (state (session_shutdown env w))"
proof -
  let ?nm = "agentName (state w)"
  let ?file = "regFile ?nm"
  define wa where "wa = logEvent env ?nm Leave None None w"
  define w1 where "w1 = (if length (reservations (state wa)) > 0
             then snd (removeAllReservations env wa) else wa)"
  define w2 where "w2 = (if registryFlushTimer (state w1)
             then log_effect (ClearTimeout RegistryFlushTimer)
                    (w1\<lparr>state := (state w1)\<lparr>registryFlushTimer := False\<rparr>\<rparr>)
             else w1)"
  define w4 where "w4 = stopWatcher (cleanup w2)"
  have sd: "session_shutdown env w = unregister w4"
    using assms by (simp add: session_shutdown_def Let_def wa_def w1_def w2_def w4_def)
  have ba: "base_exists wa" by (simp add: wa_def)
  note R = removeAllReservations_spec [OF ba, of env]
  have sa: "state wa = state w" by (simp add: wa_def)
  have rja: "readJSON_reg wa f = readJSON_reg w f" for f
    by (intro readJSON_reg_cong) (simp add: wa_def)
  have exa: "existsSync_reg wa f = existsSync_reg w f" for f
    by (intro existsSync_reg_cong) (simp add: wa_def)
  have ta: "trace wa = trace w @ optEffect (\<not> base_exists w) (Mkdir BasePath) @
      [AppendFile FeedPath (eventLine env ?nm Leave None)]"
    by (simp add: wa_def logEvent_trace)
  have fa: "feed_file wa =
      Some ((case feed_file w of None \<Rightarrow> [] | Some c \<Rightarrow> c) @ eventLine env ?nm Leave None)"
    by (simp add: wa_def logEvent_feed)
  have pa: "pendingEdits wa = pendingEdits w" "recentCommitTimer wa = recentCommitTimer w"
    "recentTestTimer wa = recentTestTimer w" "recentEditTimer wa = recentEditTimer w"
    by (simp_all add: wa_def)
  \<comment> \<open>after the leave event and the release of the reservations\<close>
  have t1: "trace w1 = trace w @ optEffect (\<not> base_exists w) (Mkdir BasePath) @
      [AppendFile FeedPath (eventLine env ?nm Leave None)] @
      optEffect (reservations (state w) \<noteq> [] \<and> readJSON_reg w ?file \<noteq> None)
        (WriteFile (RegistryPath ?file)) @
      map (\<lambda>r. AppendFile FeedPath (eventLine env ?nm Release (Some (pattern r))))
        (reservations (state w))"
    using assms by (simp add: w1_def R sa ta rja optEffect_def)
  have f1: "feed_file w1 =
      Some ((case feed_file w of None \<Rightarrow> [] | Some c \<Rightarrow> c) @ eventLine env ?nm Leave None @
            concat (map (\<lambda>r. eventLine env ?nm Release (Some (pattern r)))
              (reservations (state w))))"
    by (simp add: w1_def R sa fa)
  have s1: "registered (state w1)" "agentName (state w1) = ?nm" "reservations (state w1) = []"
    "registryFlushTimer (state w1) = registryFlushTimer (state w)"
    "watcher (state w1) = watcher (state w)"
    "watcherDebounceTimer (state w1) = watcherDebounceTimer (state w)"
    "watcherRetryTimer (state w1) = watcherRetryTimer (state w)"
    "pendingEdits w1 = pendingEdits w"
    "recentCommitTimer w1 = recentCommitTimer w"
    "recentTestTimer w1 = recentTestTimer w"
    "recentEditTimer w1 = recentEditTimer w"
    using assms by (simp_all add: w1_def R sa pa)
  have e1: "existsSync_reg w1 ?file = existsSync_reg w ?file"
    by (simp add: w1_def R exa)
  \<comment> \<open>after the flush timer\<close>
  have t2: "trace w2 = trace w1 @
      optEffect (registryFlushTimer (state w)) (ClearTimeout RegistryFlushTimer)"
    by (simp add: w2_def s1 optEffect_def log_effect_def)
  have s2: "registered (state w2)" "agentName (state w2) = ?nm" "reservations (state w2) = []"
    "\<not> registryFlushTimer (state w2)"
    "watcher (state w2) = watcher (state w)"
    "watcherDebounceTimer (state w2) = watcherDebounceTimer (state w)"
    "watcherRetryTimer (state w2) = watcherRetryTimer (state w)"
    "pendingEdits w2 = pendingEdits w"
    "recentCommitTimer w2 = recentCommitTimer w"
    "recentTestTimer w2 = recentTestTimer w"
    "recentEditTimer w2 = recentEditTimer w"
    "feed_file w2 = feed_file w1"
    using s1 by (simp_all add: w2_def log_effect_def)
  have e2: "existsSync_reg w2 ?file = existsSync_reg w1 ?file"
    by (intro existsSync_reg_cong) (simp add: w2_def log_effect_def)
  \<comment> \<open>after the timers of the tracker and the watcher\<close>
  have t4: "trace w4 = trace w2 @
      map (\<lambda>p. ClearTimeout (PendingEditTimer p)) (pendingEdits w) @
      optEffect (recentCommitTimer w) (ClearTimeout RecentCommitTimer) @
      optEffect (recentTestTimer w) (ClearTimeout RecentTestTimer) @
      optEffect (recentEditTimer w) (ClearTimeout RecentEditTimer) @
      optEffect (watcherDebounceTimer (state w)) (ClearTimeout WatcherDebounceTimer) @
      optEffect (watcherRetryTimer (state w)) (ClearTimeout WatcherRetryTimer) @
      optEffect (watcher (state w)) WatcherClose"
    unfolding w4_def stopWatcher_trace cleanup_trace cleanup_fields using s2 by simp
  have s4: "registered (state w4)" "agentName (state w4) = ?nm" "reservations (state w4) = []"
    "\<not> registryFlushTimer (state w4)"
    "\<not> watcher (state w4)" "\<not> watcherDebounceTimer (state w4)"
    "\<not> watcherRetryTimer (state w4)"
    "pendingEdits w4 = []" "\<not> recentCommitTimer w4" "\<not> recentTestTimer w4"
    "\<not> recentEditTimer w4" "feed_file w4 = feed_file w1"
    unfolding w4_def stopWatcher_fields cleanup_fields using s2 by simp_all
  have e4: "existsSync_reg w4 ?file = existsSync_reg w ?file"
    using e1 e2 existsSync_reg_cong [of w4 w2 ?file] by (simp add: w4_def)
  \<comment> \<open>after the removal of the record\<close>
  note U = unregister_fields [OF s4(1)]
  have t5: "trace (session_shutdown env w) = trace w4 @
      optEffect (existsSync_reg w ?file) (Unlink (RegistryPath ?file))"
    unfolding sd unregister_trace using s4(1,2) e4 by simp
  have c1: "trace (session_shutdown env w) =
      trace w @
      optEffect (\<not> base_exists w) (Mkdir BasePath) @
      [AppendFile FeedPath (eventLine env ?nm Leave None)] @
      optEffect (reservations (state w) \<noteq> [] \<and> readJSON_reg w ?file \<noteq> None)
        (WriteFile (RegistryPath ?file)) @
      map (\<lambda>r. AppendFile FeedPath (eventLine env ?nm Release (Some (pattern r))))
        (reservations (state w)) @
      optEffect (registryFlushTimer (state w)) (ClearTimeout RegistryFlushTimer) @
      map (\<lambda>p. ClearTimeout (PendingEditTimer p)) (pendingEdits w) @
      optEffect (recentCommitTimer w) (ClearTimeout RecentCommitTimer) @
      optEffect (recentTestTimer w) (ClearTimeout RecentTestTimer) @
      optEffect (recentEditTimer w) (ClearTimeout RecentEditTimer) @
      optEffect (watcherDebounceTimer (state w)) (ClearTimeout WatcherDebounceTimer) @
      optEffect (watcherRetryTimer (state w)) (ClearTimeout WatcherRetryTimer) @
      optEffect (watcher (state w)) WatcherClose @
      optEffect (existsSync_reg w ?file) (Unlink (RegistryPath ?file))"
    unfolding t5 t4 t2 t1 by simp
  have c2: "feed_file (session_shutdown env w) =
      Some ((case feed_file w of None \<Rightarrow> [] | Some c \<Rightarrow> c) @ eventLine env ?nm Leave None @
            concat (map (\<lambda>r. eventLine env ?nm Release (Some (pattern r)))
              (reservations (state w))))"
    unfolding sd U(8) s4(12) f1 ..
  have c3: "\<not> registered (state (session_shutdown env w))"
    "reservations (state (session_shutdown env w)) = []"
    "\<not> existsSync_reg (session_shutdown env w) ?file"
    "\<not> registryFlushTimer (state (session_shutdown env w))"
    "pendingEdits (session_shutdown env w) = []"
    "\<not> recentCommitTimer (session_shutdown env w)"
    "\<not> recentTestTimer (session_shutdown env w)"
    "\<not> recentEditTimer (session_shutdown env w)"
    "\<not> watcherDebounceTimer (state (session_shutdown env w))"
    "\<not> watcherRetryTimer (state (session_shutdown env w))"
    "\<not> watcher (state (session_shutdown env w))"
    unfolding sd using U s4 by simp_all
  from c1 c2 c3 show ?thesis by blast
qed

text \<open>
  Claim C1, amended. The shutdown of a registered agent performs, in this order: the
  leave event is written to the feed; the agent's reservations are released (the
  registry record is rewritten without them and one release event per reservation is
  written); the flush timer, the timers of the activity tracker and the timers of the
  watcher are cancelled and the watcher is closed; the registry record is deleted. So
  in the feed the leave event stands before the release events. Afterwards the agent is
  not registered, holds no reservation, has no timer set and no watcher, and its record
  is gone.
\<close>

theorem session_shutdown_order:
  assumes "registered (state w)"
  shows "trace (session_shutdown env w) =
      trace w @
      optEffect (\<not> base_exists w) (Mkdir BasePath) @
      [AppendFile FeedPath (eventLine env (agentName (state w)) Leave None)] @
      optEffect (reservations (state w) \<noteq> [] \<and>
                 readJSON_reg w (regFile (agentName (state w))) \<noteq> None)
        (WriteFile (RegistryPath (regFile (agentName (state w))))) @
      map (\<lambda>r. AppendFile FeedPath (eventLine env (agentName (state w)) Release (Some (pattern r))))
        (reservations (state w)) @
      optEffect (registryFlushTimer (state w)) (ClearTimeout RegistryFlushTimer) @
      map (\<lambda>p. ClearTimeout (PendingEditTimer p)) (pendingEdits w) @
      optEffect (recentCommitTimer w) (ClearTimeout RecentCommitTimer) @
      optEffect (recentTestTimer w) (ClearTimeout RecentTestTimer) @
      optEffect (recentEditTimer w) (ClearTimeout RecentEditTimer) @
      optEffect (watcherDebounceTimer (state w)) (ClearTimeout WatcherDebounceTimer) @
      optEffect (watcherRetryTimer (state w)) (ClearTimeout WatcherRetryTimer) @
      optEffect (watcher (state w)) WatcherClose @
      optEffect (existsSync_reg w (regFile (agentName (state w))))
        (Unlink (RegistryPath (regFile (agentName (state w))))) \<and>
    feed_file (session_shutdown env w) =
      Some ((case feed_file w of None \<Rightarrow> [] | Some c \<Rightarrow> c) @
            eventLine env (agentName (state w)) Leave None @
            concat (map (\<lambda>r. eventLine env (agentName (state w)) Release (Some (pattern r)))
              (reservations (state w)))) \<and>
    \<not> registered (state (session_shutdown env w)) \<and>
    reservations (state (session_shutdown env w)) = [] \<and>
    \<not> existsSync_reg (session_shutdown env w) (regFile (agentName (state w))) \<and>
    \<not> registryFlushTimer (state (session_shutdown env w)) \<and>
    pendingEdits (session_shutdown env w) = [] \<and>
    \<not> recentCommitTimer (session_shutdown env w) \<and>
    \<not> recentTestTimer (session_shutdown env w) \<and>
    \<not> recentEditTimer (session_shutdown env w) \<and>
    \<not> watcherDebounceTimer (state (session_shutdown env w)) \<and>
    \<not> watcherRetryTimer (state (session_shutdown env w)) \<and>
    \<not> watcher (state (session_shutdown env w))"
  using assms by (rule session_shutdown_effects)

lemma shutdownWorld_facts:
  "registered (state shutdownWorld)"
  "agentName (state shutdownWorld) = ''agent-1''"
  "base_exists shutdownWorld"
  "reservations (state shutdownWorld) =
     [\<lparr>pattern = ''src/auth/'', reason = Some ''refactoring'',
       since = ''2026-01-01T00:00:02.000Z''\<rparr>]"
  "readJSON_reg shutdownWorld ''agent-1.json'' = Some (exampleReg ''agent-1'' 4242)"
  "existsSync_reg shutdownWorld ''agent-1.json''"
  "registryFlushTimer (state shutdownWorld)"
  "pendingEdits shutdownWorld = [''src/auth/login.ts'']"
  "\<not> recentCommitTimer shutdownWorld"
  "\<not> recentTestTimer shutdownWorld"
  "recentEditTimer shutdownWorld"
  "\<not> watcherDebounceTimer (state shutdownWorld)"
  "\<not> watcherRetryTimer (state shutdownWorld)"
  "watcher (state shutdownWorld)"
  "feed_file shutdownWorld = None"
  "trace shutdownWorld = []"
  by (simp_all add: shutdownWorld_def exampleWorld_def emptyWorld_def agent1_def initialState_def
      readJSON_reg_def existsSync_reg_def exampleRegistry_def)

theorem session_shutdown_order_witness:
  "trace (session_shutdown exampleEnv shutdownWorld) =
     [AppendFile FeedPath (eventLine exampleEnv ''agent-1'' Leave None),
      WriteFile (RegistryPath ''agent-1.json''),
      AppendFile FeedPath (eventLine exampleEnv ''agent-1'' Release (Some ''src/auth/'')),
      ClearTimeout RegistryFlushTimer,
      ClearTimeout (PendingEditTimer ''src/auth/login.ts''),
      ClearTimeout RecentEditTimer,
      WatcherClose,
      Unlink (RegistryPath ''agent-1.json'')] \<and>
   \<not> registered (state (session_shutdown exampleEnv shutdownWorld)) \<and>
   \<not> existsSync_reg (session_shutdown exampleEnv shutdownWorld) ''agent-1.json''"
proof -
  note F = shutdownWorld_facts
  note T = session_shutdown_order [OF F(1), of exampleEnv]
  have rf: "regFile ''agent-1'' = ''agent-1.json''" by (simp add: regFile_def)
  have 1: "trace (session_shutdown exampleEnv shutdownWorld) =
     [AppendFile FeedPath (eventLine exampleEnv ''agent-1'' Leave None),
      WriteFile (RegistryPath ''agent-1.json''),
      AppendFile FeedPath (eventLine exampleEnv ''agent-1'' Release (Some ''src/auth/'')),
      ClearTimeout RegistryFlushTimer,
      ClearTimeout (PendingEditTimer ''src/auth/login.ts''),
      ClearTimeout RecentEditTimer,
      WatcherClose,
      Unlink (RegistryPath ''agent-1.json'')]"
    using T [THEN conjunct1] by (simp add: F rf optEffect_def)
  have 2: "\<not> registered (state (session_shutdown exampleEnv shutdownWorld))"
    using T by simp
  have 3: "\<not> existsSync_reg (session_shutdown exampleEnv shutdownWorld) ''agent-1.json''"
    using T by (simp add: F rf)
  from 1 2 3 show ?thesis by simp
qed

text \<open>
  Claim C1, as stated, fails: the leave event is the first effect of the shutdown and
  stands in the feed before the release event; the timers are cancelled and the watcher
  is closed only after both.
\<close>

theorem session_shutdown_leave_first_counterexample:
  "feed_file (session_shutdown exampleEnv shutdownWorld) =
     Some (eventLine exampleEnv ''agent-1'' Leave None @
           eventLine exampleEnv ''agent-1'' Release (Some ''src/auth/'')) \<and>
   firstIndex (AppendFile FeedPath (eventLine exampleEnv ''agent-1'' Leave None))
       (trace (session_shutdown exampleEnv shutdownWorld)) = 0 \<and>
   firstIndex (AppendFile FeedPath (eventLine exampleEnv ''agent-1'' Release (Some ''src/auth/'')))
       (trace (session_shutdown exampleEnv shutdownWorld)) = 2 \<and>
   firstIndex (ClearTimeout RegistryFlushTimer)
       (trace (session_shutdown exampleEnv shutdownWorld)) = 3 \<and>
   firstIndex WatcherClose (trace (session_shutdown exampleEnv shutdownWorld)) = 6 \<and>
   firstIndex (Unlink (RegistryPath ''agent-1.json''))
       (trace (session_shutdown exampleEnv shutdownWorld)) = 7"
proof -
  note F = shutdownWorld_facts
  note T = session_shutdown_effects [OF F(1), of exampleEnv]
  have rf: "regFile ''agent-1'' = ''agent-1.json''" by (simp add: regFile_def)
  have tr: "trace (session_shutdown exampleEnv shutdownWorld) =
     [AppendFile FeedPath (eventLine exampleEnv ''agent-1'' Leave None),
      WriteFile (RegistryPath ''agent-1.json''),
      AppendFile FeedPath (eventLine exampleEnv ''agent-1'' Release (Some ''src/auth/'')),
      ClearTimeout RegistryFlushTimer,
      ClearTimeout (PendingEditTimer ''src/auth/login.ts''),
      ClearTimeout RecentEditTimer,
      WatcherClose,
      Unlink (RegistryPath ''agent-1.json'')]"
    using T [THEN conjunct1] by (simp add: F rf optEffect_def)
  have ne: "eventLine exampleEnv ''agent-1'' Release (Some ''src/auth/'') \<noteq>
      eventLine exampleEnv ''agent-1'' Leave None"
    by (simp add: eventLine_def JSON_stringify_event_def member_def optMember_def
        QuoteJSONString_def quoteChar_def)
  have 1: "feed_file (session_shutdown exampleEnv shutdownWorld) =
     Some (eventLine exampleEnv ''agent-1'' Leave None @
           eventLine exampleEnv ''agent-1'' Release (Some ''src/auth/''))"
    using T [THEN conjunct2, THEN conjunct1] by (simp add: F)
  show ?thesis unfolding tr using 1 ne by simp
qed

end
